theory Spec2Isabelle
  imports Main "HOL-Library.AList"
begin

section \<open>Strings\<close>

text \<open>
  Python strings are modelled as \<open>string\<close>; a \<open>char\<close> is read as a code point below 256.
  On that range \<open>str.lower\<close> maps \<open>A\<close>..\<open>Z\<close> and the upper-case letters
  U+00C0..U+00DE (U+00D7, the multiplication sign, apart) to the code point 32 above, and
  the regular expression class \<open>\s\<close> of a \<open>str\<close> pattern holds the characters for
  which \<open>str.isspace\<close> is true: 9..13, 28..32, 133 and 160.
\<close>

definition py_lower_char :: "char \<Rightarrow> char" where
  "py_lower_char c =
     (let n = (of_char c :: nat)
      in if (65 \<le> n \<and> n \<le> 90) \<or> (192 \<le> n \<and> n \<le> 222 \<and> n \<noteq> 215)
         then char_of (n + 32) else c)"

definition py_lower :: "string \<Rightarrow> string" where
  "py_lower s = map py_lower_char s"

definition is_space :: "char \<Rightarrow> bool" where
  "is_space c =
     (let n = (of_char c :: nat)
      in (9 \<le> n \<and> n \<le> 13) \<or> (28 \<le> n \<and> n \<le> 32) \<or> n = 133 \<or> n = 160)"

text \<open>The character class \<open>[\s\-]\<close>.\<close>

definition is_sep :: "char \<Rightarrow> bool" where
  "is_sep c = (is_space c \<or> c = CHR ''-'')"

text \<open>The character classes \<open>[a-z0-9]\<close> and \<open>[A-Z]\<close>: ASCII only, no flag is given.\<close>

definition is_lower_or_digit :: "char \<Rightarrow> bool" where
  "is_lower_or_digit c =
     (let n = (of_char c :: nat) in (97 \<le> n \<and> n \<le> 122) \<or> (48 \<le> n \<and> n \<le> 57))"

definition is_upper :: "char \<Rightarrow> bool" where
  "is_upper c = (let n = (of_char c :: nat) in 65 \<le> n \<and> n \<le> 90)"

definition is_underscore :: "char \<Rightarrow> bool" where
  "is_underscore c = (c = CHR ''_'')"

text \<open>\<open>s.endswith(suffix)\<close>\<close>

definition endswith :: "string \<Rightarrow> string \<Rightarrow> bool" where
  "endswith s suffix =
     (length suffix \<le> length s \<and> drop (length s - length suffix) s = suffix)"

text \<open>\<open>s.strip('_')\<close>: the underscores at both ends are removed.\<close>

definition strip_underscores :: "string \<Rightarrow> string" where
  "strip_underscores s = rev (dropWhile is_underscore (rev (dropWhile is_underscore s)))"

text \<open>\<open>schema_name, table_name_only = table_name.split('.', 1)\<close>, used where
  \<open>'.' in table_name\<close> has been tested.\<close>

definition has_dot :: "string \<Rightarrow> bool" where
  "has_dot s = (CHR ''.'' \<in> set s)"

definition split_dot :: "string \<Rightarrow> string \<times> string" where
  "split_dot s =
     (takeWhile (\<lambda>c. c \<noteq> CHR ''.'') s, drop 1 (dropWhile (\<lambda>c. c \<noteq> CHR ''.'') s))"

section \<open>CSV\_Extractor.camel\_to\_snake\<close>

text \<open>
  \<^verbatim>\<open>re.sub(r'[\s\-]+', '_', name)\<close>: every maximal run of separators becomes one
  underscore. The matches of \<open>re.sub\<close> are the leftmost, non-overlapping ones, and \<open>+\<close>
  is greedy.
\<close>

function sub_separators :: "string \<Rightarrow> string" where
  "sub_separators [] = []"
| "sub_separators (c # cs) =
     (if is_sep c then CHR ''_'' # sub_separators (dropWhile is_sep cs)
      else c # sub_separators cs)"
  by pat_completeness auto
termination
  by (relation "measure length") (auto simp: less_Suc_eq_le length_dropWhile_le)

text \<open>
  \<^verbatim>\<open>re.sub(r'([a-z0-9])([A-Z])', r'\1_\2', name)\<close>: a match takes two characters, and
  the scan goes on after the second one.
\<close>

fun sub_camel :: "string \<Rightarrow> string" where
  "sub_camel (a # b # cs) =
     (if is_lower_or_digit a \<and> is_upper b then a # CHR ''_'' # b # sub_camel cs
      else a # sub_camel (b # cs))"
| "sub_camel cs = cs"

text \<open>\<^verbatim>\<open>re.sub(r'_+', '_', s)\<close>\<close>

function sub_underscores :: "string \<Rightarrow> string" where
  "sub_underscores [] = []"
| "sub_underscores (c # cs) =
     (if is_underscore c then CHR ''_'' # sub_underscores (dropWhile is_underscore cs)
      else c # sub_underscores cs)"
  by pat_completeness auto
termination
  by (relation "measure length") (auto simp: less_Suc_eq_le length_dropWhile_le)

definition camel_to_snake :: "string \<Rightarrow> string" where
  "camel_to_snake name =
     (let name1 = sub_separators name;
          name2 = sub_camel name1
      in sub_underscores (strip_underscores (py_lower name2)))"

section \<open>Values, rows and the destination store\<close>

text \<open>
  Python values, as far as the loaders handle them. \<open>PJson v\<close> is
  \<^verbatim>\<open>psycopg2.extras.Json(v)\<close>; \<open>PTime t\<close> is a \<open>datetime\<close>, the clock's reading \<open>t\<close>.
  A dictionary is an association list in insertion order.
\<close>

datatype pyval =
    PNone
  | PBool bool
  | PInt int
  | PStr string
  | PTime nat
  | PList "pyval list"
  | PDict "(string \<times> pyval) list"
  | PJson pyval

text \<open>Python's truth value of an object, as \<^verbatim>\<open>if 'file_name' in table_columns and file_name\<close> tests it.\<close>

fun truthy :: "pyval \<Rightarrow> bool" where
  "truthy PNone = False"
| "truthy (PBool b) = b"
| "truthy (PInt i) = (i \<noteq> 0)"
| "truthy (PStr s) = (s \<noteq> [])"
| "truthy (PTime t) = True"
| "truthy (PList xs) = (xs \<noteq> [])"
| "truthy (PDict kvs) = (kvs \<noteq> [])"
| "truthy (PJson v) = True"

text \<open>A stored row gives a value to each column of the statement that wrote it.\<close>

type_synonym row = "(string \<times> pyval) list"

datatype exn =
    AttributeError
  | InterfaceError
  | DatabaseError
  | EngineException
  | SQLAlchemyError

text \<open>The statements of an open transaction on the psycopg2 connection.\<close>

datatype stmt = Ins string row | Trunc string

datatype conn_state = NoConn | Opened | Closed

text \<open>
  The state: \<open>conn\<close> is \<^verbatim>\<open>DatabaseConnector.connection\<close> (\<open>None\<close>, an open connection, or a
  connection object that has been closed), \<open>pending\<close> the statements executed on it and
  not yet committed, \<open>tables\<close> the committed rows of every table, \<open>ticks\<close> the number of
  times the clock has been read.
\<close>

record db =
  conn :: conn_state
  pending :: "stmt list"
  tables :: "string \<Rightarrow> row list"
  ticks :: nat

record catalog_row =
  table_schema :: string
  table_name :: string
  column_name :: string
  ordinal_position :: nat

record dataframe =
  columns :: "string list"
  rows :: "pyval list list"

record http_response =
  status_code :: int
  json_body :: "pyval option"
  csv_body :: "dataframe option"

text \<open>
  What the program does not decide: whether the server can be reached, the rows of
  \<^verbatim>\<open>information_schema.columns\<close>, which statements the server refuses, the clock
  (\<open>clock e n\<close> is the value of the \<open>n\<close>-th call of \<^verbatim>\<open>datetime.now()\<close>), and the answers to
  HTTP requests (\<open>None\<close>: \<^verbatim>\<open>requests.get\<close> raises; \<open>json_body\<close> and \<open>csv_body\<close> are \<open>None\<close>
  where \<^verbatim>\<open>response.json()\<close> and \<^verbatim>\<open>pd.read_csv\<close> raise).
  Creating and closing a cursor and writing to the log are taken not to fail.
\<close>

record env =
  can_connect :: bool
  information_schema :: "catalog_row list"
  catalog_fails :: "string \<Rightarrow> bool"
  insert_fails :: "string \<Rightarrow> row \<Rightarrow> bool"
  truncate_fails :: "string \<Rightarrow> bool"
  commit_fails :: bool
  rollback_fails :: bool
  engine_fails :: bool
  to_sql_fails :: "string \<Rightarrow> bool"
  clock :: "nat \<Rightarrow> nat"
  http_get :: "string \<Rightarrow> http_response option"

section \<open>Database\_Connector and the psycopg2 connection\<close>

text \<open>\<^verbatim>\<open>DatabaseConnector.get_connection\<close>: the connection is made on first use and kept;
  a failure to connect is caught and \<open>None\<close> returned (here \<open>False\<close>).\<close>

definition get_connection :: "env \<Rightarrow> db \<Rightarrow> bool \<times> db" where
  "get_connection e s =
     (if conn s = NoConn
      then (if can_connect e then (True, s\<lparr>conn := Opened\<rparr>) else (False, s))
      else (True, s))"

text \<open>\<^verbatim>\<open>DatabaseConnector.get_engine\<close> returns \<open>None\<close> when the engine cannot be made.\<close>

definition get_engine :: "env \<Rightarrow> bool" where
  "get_engine e = (\<not> engine_fails e)"

text \<open>\<^verbatim>\<open>connection.cursor()\<close> on what \<open>get_connection\<close> returned.\<close>

definition cursor :: "bool \<Rightarrow> db \<Rightarrow> exn + unit" where
  "cursor have s =
     (if \<not> have then Inl AttributeError
      else if conn s = Closed then Inl InterfaceError
      else Inr ())"

definition execute_insert :: "env \<Rightarrow> db \<Rightarrow> string \<Rightarrow> row \<Rightarrow> (exn + unit) \<times> db" where
  "execute_insert e s t r =
     (if insert_fails e t r then (Inl DatabaseError, s)
      else (Inr (), s\<lparr>pending := pending s @ [Ins t r]\<rparr>))"

definition execute_truncate :: "env \<Rightarrow> db \<Rightarrow> string \<Rightarrow> (exn + unit) \<times> db" where
  "execute_truncate e s t =
     (if truncate_fails e t then (Inl DatabaseError, s)
      else (Inr (), s\<lparr>pending := pending s @ [Trunc t]\<rparr>))"

fun apply_stmt :: "stmt \<Rightarrow> (string \<Rightarrow> row list) \<Rightarrow> (string \<Rightarrow> row list)" where
  "apply_stmt (Ins t r) T = T(t := T t @ [r])"
| "apply_stmt (Trunc t) T = T(t := [])"

definition commit :: "env \<Rightarrow> db \<Rightarrow> (exn + unit) \<times> db" where
  "commit e s =
     (if conn s \<noteq> Opened then (Inl InterfaceError, s)
      else if commit_fails e then (Inl DatabaseError, s)
      else (Inr (), s\<lparr>tables := fold apply_stmt (pending s) (tables s), pending := []\<rparr>))"

definition rollback :: "env \<Rightarrow> db \<Rightarrow> (exn + unit) \<times> db" where
  "rollback e s =
     (if conn s \<noteq> Opened then (Inl InterfaceError, s)
      else if rollback_fails e then (Inl DatabaseError, s)
      else (Inr (), s\<lparr>pending := []\<rparr>))"


text \<open>\<^verbatim>\<open>datetime.now()\<close>, on the count of readings.\<close>

definition now :: "env \<Rightarrow> nat \<Rightarrow> nat \<times> nat" where
  "now e n = (clock e n, Suc n)"

section \<open>get\_table\_columns\<close>

text \<open>
  The catalog query:
  \<^verbatim>\<open>SELECT column_name FROM information_schema.columns
  WHERE [table_schema = %s AND] table_name = %s ORDER BY ordinal_position\<close>
\<close>

definition select_columns :: "env \<Rightarrow> string option \<Rightarrow> string \<Rightarrow> string list" where
  "select_columns e schema_name name =
     map column_name
       (sort_key ordinal_position
          (filter (\<lambda>r. (case schema_name of None \<Rightarrow> True | Some sc \<Rightarrow> table_schema r = sc)
                        \<and> table_name r = name)
                  (information_schema e)))"

text \<open>The body of the \<open>try\<close> of \<^verbatim>\<open>get_table_columns\<close> (the same in JSON\_Extractor and
  CSV\_Extractor).\<close>

definition get_table_columns_try :: "env \<Rightarrow> db \<Rightarrow> string \<Rightarrow> (exn + string list) \<times> db" where
  "get_table_columns_try e s name =
     (case get_connection e s of (have, s1) \<Rightarrow>
        (case cursor have s1 of
           Inl x \<Rightarrow> (Inl x, s1)
         | Inr _ \<Rightarrow>
             if catalog_fails e name then (Inl DatabaseError, s1)
             else if has_dot name
               then (case split_dot name of (schema_name, table_name_only) \<Rightarrow>
                       (Inr (select_columns e (Some schema_name) table_name_only), s1))
               else (Inr (select_columns e None name), s1)))"

text \<open>\<^verbatim>\<open>except Exception as e: ... return []\<close>\<close>

definition get_table_columns :: "env \<Rightarrow> db \<Rightarrow> string \<Rightarrow> string list \<times> db" where
  "get_table_columns e s name =
     (case get_table_columns_try e s name of
        (Inl x, s1) \<Rightarrow> ([], s1)
      | (Inr cols, s1) \<Rightarrow> (cols, s1))"

section \<open>JSON\_Extractor.load\_to\_landing\<close>

text \<open>The column list of the insert statement (lines 36 to 57).\<close>

definition insert_columns :: "string list \<Rightarrow> pyval \<Rightarrow> pyval \<Rightarrow> pyval \<Rightarrow> string list" where
  "insert_columns table_columns file_name api_endpoint response_status =
     [''raw_data'']
     @ (if ''loaded_at'' \<in> set table_columns then [''loaded_at''] else [])
     @ (if ''file_name'' \<in> set table_columns \<and> truthy file_name then [''file_name''] else [])
     @ (if ''api_endpoint'' \<in> set table_columns \<and> truthy api_endpoint
        then [''api_endpoint''] else [])
     @ (if ''request_timestamp'' \<in> set table_columns then [''request_timestamp''] else [])
     @ (if ''response_status'' \<in> set table_columns \<and> response_status \<noteq> PNone
        then [''response_status''] else [])"

text \<open>
  The values of one record (lines 70 to 85); \<open>n\<close> counts the readings of the clock, and
  \<^verbatim>\<open>datetime.now()\<close> is read here for \<open>loaded_at\<close>.
\<close>

definition row_values ::
  "env \<Rightarrow> string list \<Rightarrow> pyval \<Rightarrow> pyval \<Rightarrow> pyval \<Rightarrow> nat \<Rightarrow> nat \<Rightarrow> pyval \<Rightarrow> pyval list \<times> nat"
where
  "row_values e table_columns file_name api_endpoint response_status request_time n json_obj =
     (case (if ''loaded_at'' \<in> set table_columns
            then (case now e n of (t, n1) \<Rightarrow> ([PTime t], n1))
            else ([], n)) of
        (loaded, n1) \<Rightarrow>
          ([PJson json_obj]
           @ loaded
           @ (if ''file_name'' \<in> set table_columns \<and> truthy file_name then [file_name] else [])
           @ (if ''api_endpoint'' \<in> set table_columns \<and> truthy api_endpoint
              then [api_endpoint] else [])
           @ (if ''request_timestamp'' \<in> set table_columns then [PTime request_time] else [])
           @ (if ''response_status'' \<in> set table_columns \<and> response_status \<noteq> PNone
              then [response_status] else []),
           n1))"

text \<open>The loop over the records (lines 69 to 88): it stops at the first insert that raises.\<close>

fun insert_records ::
  "env \<Rightarrow> string \<Rightarrow> string list \<Rightarrow> string list \<Rightarrow> pyval \<Rightarrow> pyval \<Rightarrow> pyval \<Rightarrow> nat
   \<Rightarrow> pyval list \<Rightarrow> nat \<Rightarrow> db \<Rightarrow> (exn + nat) \<times> db"
where
  "insert_records e name cols tc fn ae rs rt [] records_inserted s = (Inr records_inserted, s)"
| "insert_records e name cols tc fn ae rs rt (json_obj # rest) records_inserted s =
     (case row_values e tc fn ae rs rt (ticks s) json_obj of (vals, n1) \<Rightarrow>
        (case execute_insert e (s\<lparr>ticks := n1\<rparr>) name (zip cols vals) of
           (Inl x, s1) \<Rightarrow> (Inl x, s1)
         | (Inr _, s1) \<Rightarrow>
             insert_records e name cols tc fn ae rs rt rest (records_inserted + 1) s1))"

text \<open>\<^verbatim>\<open>if not isinstance(json_data, list): json_data = [json_data]\<close>\<close>

definition as_records :: "pyval \<Rightarrow> pyval list" where
  "as_records json_data = (case json_data of PList xs \<Rightarrow> xs | _ \<Rightarrow> [json_data])"

text \<open>The body of the \<open>try\<close> (lines 24 to 95).\<close>

definition load_to_landing_try ::
  "env \<Rightarrow> db \<Rightarrow> pyval \<Rightarrow> string \<Rightarrow> pyval \<Rightarrow> pyval \<Rightarrow> pyval \<Rightarrow> (exn + bool) \<times> db"
where
  "load_to_landing_try e s json_data name file_name api_endpoint response_status =
     (let records = as_records json_data in
      case get_connection e s of (have, s1) \<Rightarrow>
        (case cursor have s1 of
           Inl x \<Rightarrow> (Inl x, s1)
         | Inr _ \<Rightarrow>
            (case get_table_columns e s1 name of (table_columns, s2) \<Rightarrow>
               (let cols = insert_columns table_columns file_name api_endpoint response_status in
                case now e (ticks s2) of (request_time, n1) \<Rightarrow>
                  (case insert_records e name cols table_columns file_name api_endpoint
                          response_status request_time records 0 (s2\<lparr>ticks := n1\<rparr>) of
                     (Inl x, s3) \<Rightarrow> (Inl x, s3)
                   | (Inr records_inserted, s3) \<Rightarrow>
                       (case commit e s3 of
                          (Inl x, s4) \<Rightarrow> (Inl x, s4)
                        | (Inr _, s4) \<Rightarrow> (Inr True, s4)))))))"

text \<open>
  The handler (lines 97 to 101): \<^verbatim>\<open>if connection: connection.rollback()\<close>, then
  \<^verbatim>\<open>return False\<close>. \<open>connection\<close> is \<open>None\<close> exactly when no connection could be made;
  an exception of \<open>rollback\<close> leaves the function (\<open>Inl\<close>).
\<close>

definition load_to_landing ::
  "env \<Rightarrow> db \<Rightarrow> pyval \<Rightarrow> string \<Rightarrow> pyval \<Rightarrow> pyval \<Rightarrow> pyval \<Rightarrow> (exn + bool) \<times> db"
where
  "load_to_landing e s json_data name file_name api_endpoint response_status =
     (case load_to_landing_try e s json_data name file_name api_endpoint response_status of
        (Inr b, s1) \<Rightarrow> (Inr b, s1)
      | (Inl x, s1) \<Rightarrow>
          if conn s1 \<noteq> NoConn
          then (case rollback e s1 of
                  (Inl y, s2) \<Rightarrow> (Inl y, s2)
                | (Inr _, s2) \<Rightarrow> (Inr False, s2))
          else (Inr False, s1))"

text \<open>\<^verbatim>\<open>JSONExtractor.extract_from_object\<close>: any exception of the loader becomes \<open>False\<close>.\<close>

definition extract_from_object :: "env \<Rightarrow> db \<Rightarrow> pyval \<Rightarrow> string \<Rightarrow> pyval \<Rightarrow> bool \<times> db" where
  "extract_from_object e s json_obj name source_name =
     (case load_to_landing e s json_obj name source_name PNone PNone of
        (Inr b, s1) \<Rightarrow> (b, s1)
      | (Inl x, s1) \<Rightarrow> (False, s1))"

section \<open>Data frames\<close>

text \<open>\<^verbatim>\<open>dict(zip(keys, values))\<close>: a key that comes again keeps its place and takes the
  later value.\<close>

definition dict_of :: "(string \<times> pyval) list \<Rightarrow> (string \<times> pyval) list" where
  "dict_of kvs = foldl (\<lambda>d (k, v). AList.update k v d) [] kvs"

text \<open>\<^verbatim>\<open>df.to_dict('records')\<close>\<close>

definition to_dict_records :: "dataframe \<Rightarrow> pyval list" where
  "to_dict_records df = map (\<lambda>r. PDict (dict_of (zip (columns df) r))) (rows df)"

text \<open>\<^verbatim>\<open>df[name] = v\<close> for a scalar \<open>v\<close>: the columns of that label are overwritten, or a
  new column is put last.\<close>

definition set_column :: "dataframe \<Rightarrow> string \<Rightarrow> pyval \<Rightarrow> dataframe" where
  "set_column df name v =
     (if name \<in> set (columns df)
      then df\<lparr>rows := map (\<lambda>r. map (\<lambda>(c, x). if c = name then v else x) (zip (columns df) r))
                          (rows df)\<rparr>
      else df\<lparr>columns := columns df @ [name], rows := map (\<lambda>r. r @ [v]) (rows df)\<rparr>)"

text \<open>\<^verbatim>\<open>df[labels]\<close>: for each label in turn, every column of the frame that carries it.\<close>

definition select_frame :: "dataframe \<Rightarrow> string list \<Rightarrow> dataframe" where
  "select_frame df labels =
     \<lparr>columns = concat (map (\<lambda>l. filter (\<lambda>c. c = l) (columns df)) labels),
      rows = map (\<lambda>r. concat (map (\<lambda>l. map snd (filter (\<lambda>(c, x). c = l) (zip (columns df) r)))
                                    labels))
                 (rows df)\<rparr>"

definition frame_rows :: "dataframe \<Rightarrow> row list" where
  "frame_rows df = map (\<lambda>r. zip (columns df) r) (rows df)"

text \<open>\<^verbatim>\<open>df.to_sql(name, engine, schema=..., if_exists='append', index=False)\<close>: the rows are
  appended through the engine, in one transaction of its own.\<close>

definition to_sql :: "env \<Rightarrow> db \<Rightarrow> string \<Rightarrow> dataframe \<Rightarrow> (exn + unit) \<times> db" where
  "to_sql e s qualified df =
     (if to_sql_fails e qualified then (Inl SQLAlchemyError, s)
      else (Inr (), s\<lparr>tables := (tables s)(qualified := tables s qualified @ frame_rows df)\<rparr>))"

section \<open>CSV\_Extractor.load\_to\_landing\<close>

text \<open>Structured mode, lines 54 to 65: the frame that is appended.\<close>

definition structured_frame ::
  "env \<Rightarrow> nat \<Rightarrow> dataframe \<Rightarrow> string list \<Rightarrow> pyval \<Rightarrow> dataframe \<times> nat"
where
  "structured_frame e n df table_columns source_file =
     (let df1 = df\<lparr>columns := map camel_to_snake (columns df)\<rparr> in
      case (if ''loaded_at'' \<in> set table_columns
            then (case now e n of (t, n1) \<Rightarrow> (set_column df1 ''loaded_at'' (PTime t), n1))
            else (df1, n)) of
        (df2, n1) \<Rightarrow>
          (let df3 = (if ''source_file'' \<in> set table_columns \<and> truthy source_file
                      then set_column df2 ''source_file'' source_file else df2);
               matching_columns = filter (\<lambda>col. col \<in> set table_columns) (columns df3)
           in (select_frame df3 matching_columns, n1)))"

text \<open>The inner \<open>try\<close>, lines 68 to 92. The name that \<open>to_sql\<close> is given is the table name
  split at its first dot, as schema and table.\<close>

definition append_try :: "env \<Rightarrow> db \<Rightarrow> dataframe \<Rightarrow> string \<Rightarrow> (exn + bool) \<times> db" where
  "append_try e s df_filtered name =
     (if \<not> get_engine e then (Inl EngineException, s)
      else
        (case get_connection e s of (have, s1) \<Rightarrow>
           (case cursor have s1 of
              Inl x \<Rightarrow> (Inl x, s1)
            | Inr _ \<Rightarrow>
               (case execute_truncate e s1 name of
                  (Inl x, s2) \<Rightarrow> (Inl x, s2)
                | (Inr _, s2) \<Rightarrow>
                   (case commit e s2 of
                      (Inl x, s3) \<Rightarrow> (Inl x, s3)
                    | (Inr _, s3) \<Rightarrow>
                       (case (if has_dot name
                              then (case split_dot name of (schema_name, table_name_only) \<Rightarrow>
                                      to_sql e s3 (schema_name @ ''.'' @ table_name_only)
                                        df_filtered)
                              else to_sql e s3 name df_filtered) of
                          (Inl x, s4) \<Rightarrow> (Inl x, s4)
                        | (Inr _, s4) \<Rightarrow> (Inr True, s4)))))))"

definition structured_load ::
  "env \<Rightarrow> db \<Rightarrow> dataframe \<Rightarrow> string \<Rightarrow> pyval \<Rightarrow> string list \<Rightarrow> bool \<times> db"
where
  "structured_load e s df name source_file table_columns =
     (case structured_frame e (ticks s) df table_columns source_file of (df_filtered, n1) \<Rightarrow>
        (case append_try e (s\<lparr>ticks := n1\<rparr>) df_filtered name of
           (Inl x, s1) \<Rightarrow> (False, s1)
         | (Inr success, s1) \<Rightarrow> (success, s1)))"

text \<open>
  \<^verbatim>\<open>CSVExtractor.load_to_landing\<close>. An exception of the JSON loader is caught by the outer
  \<open>except\<close> (lines 105 to 107), which returns \<open>False\<close>.
\<close>

definition csv_load_to_landing ::
  "env \<Rightarrow> db \<Rightarrow> dataframe \<Rightarrow> string \<Rightarrow> pyval \<Rightarrow> bool \<times> db"
where
  "csv_load_to_landing e s df name source_file =
     (case get_table_columns e s name of (table_columns, s1) \<Rightarrow>
        if ''raw_data'' \<in> set table_columns
        then (let records = to_dict_records df in
              case load_to_landing e s1 (PList records) name source_file PNone PNone of
                (Inr success, s2) \<Rightarrow> (success, s2)
              | (Inl x, s2) \<Rightarrow> (False, s2))
        else structured_load e s1 df name source_file table_columns)"

text \<open>\<^verbatim>\<open>CSVExtractor.extract_from_dataframe\<close>\<close>

definition extract_from_dataframe ::
  "env \<Rightarrow> db \<Rightarrow> dataframe \<Rightarrow> string \<Rightarrow> pyval \<Rightarrow> bool \<times> db"
where
  "extract_from_dataframe e s df name source_file = csv_load_to_landing e s df name source_file"

section \<open>The fetchers and the orchestrator\<close>

text \<open>
  Of the log, the model keeps the lines that tell which entry of a mapping is being
  processed, which entry failed, and that a file key has no supported extension.
\<close>

datatype event =
    Processing string string
  | FailedToProcess string
  | UnsupportedFormat string

record s3_config =
  bucket_name :: string
  region :: string
  files :: "(string \<times> string) list"

record api_config =
  endpoints :: "(string \<times> string) list"

record config =
  s3 :: s3_config
  api :: api_config

text \<open>\<^verbatim>\<open>response.raise_for_status()\<close> raises for the status codes 400 to 599.\<close>

definition bad_status :: "http_response \<Rightarrow> bool" where
  "bad_status r = (400 \<le> status_code r \<and> status_code r < 600)"

subsection \<open>S3\_Extractor\<close>

definition get_public_url :: "s3_config \<Rightarrow> string \<Rightarrow> string" where
  "get_public_url cfg file_key =
     ''https://'' @ bucket_name cfg @ ''.s3.'' @ region cfg @ ''.amazonaws.com/'' @ file_key"

definition extract_file ::
  "env \<Rightarrow> s3_config \<Rightarrow> db \<Rightarrow> string \<Rightarrow> string \<Rightarrow> bool \<times> event list \<times> db"
where
  "extract_file e cfg s file_key name =
     (let public_url = get_public_url cfg file_key in
      if public_url = [] then (False, [], s)
      else
        (case http_get e public_url of
           None \<Rightarrow> (False, [], s)
         | Some response \<Rightarrow>
             if bad_status response then (False, [], s)
             else if endswith (py_lower file_key) ''.json'' then
               (case json_body response of
                  None \<Rightarrow> (False, [], s)
                | Some json_data \<Rightarrow>
                    (case extract_from_object e s json_data name (PStr file_key) of
                       (success, s1) \<Rightarrow> (success, [], s1)))
             else if endswith (py_lower file_key) ''.csv'' then
               (case csv_body response of
                  None \<Rightarrow> (False, [], s)
                | Some df \<Rightarrow>
                    (case extract_from_dataframe e s df name (PStr file_key) of
                       (success, s1) \<Rightarrow> (success, [], s1)))
             else (False, [UnsupportedFormat file_key], s)))"



subsection \<open>API\_Extractor\<close>





subsection \<open>Main\_Extractor\<close>




section \<open>Notions used in the statements\<close>

text \<open>
A string that neither starts nor ends with an underscore.
\<close>

definition trimmed :: "string \<Rightarrow> bool" where
  "trimmed s = (s = [] \<or> (\<not> is_underscore (hd s) \<and> \<not> is_underscore (last s)))"

text \<open>
The catalog rows of the table a name stands for: those the \<open>WHERE\<close> clause of
  \<open>get_table_columns\<close> keeps.
\<close>

definition names_table :: "string \<Rightarrow> catalog_row \<Rightarrow> bool" where
  "names_table name r =
     (if has_dot name
      then table_schema r = fst (split_dot name) \<and> table_name r = snd (split_dot name)
      else table_name r = name)"

text \<open>
The number of clock readings the loop of the Document Loader makes for one record.
\<close>

definition reads_per_row :: "string list \<Rightarrow> nat" where
  "reads_per_row tc = (if ''loaded_at'' \<in> set tc then 1 else 0)"

text \<open>
The rows that the loop of the Document Loader builds for a list of records, when the
  clock has been read \<open>n\<close> times before the first one.
\<close>

fun batch_rows ::
  "env \<Rightarrow> string list \<Rightarrow> pyval \<Rightarrow> pyval \<Rightarrow> pyval \<Rightarrow> nat \<Rightarrow> nat \<Rightarrow> pyval list \<Rightarrow> row list"
where
  "batch_rows e tc fn ae rs rt n [] = []"
| "batch_rows e tc fn ae rs rt n (json_obj # rest) =
     (case row_values e tc fn ae rs rt n json_obj of (vals, n1) \<Rightarrow>
        zip (insert_columns tc fn ae rs) vals # batch_rows e tc fn ae rs rt n1 rest)"

text \<open>
The rows of one call of the Document Loader: the clock is read once for
  \<open>request_time\<close>, then the loop runs.
\<close>

definition call_rows :: "env \<Rightarrow> db \<Rightarrow> pyval \<Rightarrow> string \<Rightarrow> pyval \<Rightarrow> pyval \<Rightarrow> pyval \<Rightarrow> row list" where
  "call_rows e s json_data name fn ae rs =
     batch_rows e (fst (get_table_columns e s name)) fn ae rs (clock e (ticks s)) (Suc (ticks s))
       (as_records json_data)"

text \<open>
The destination table declares a column: the catalog has a row of that column for the
  table that the name stands for.
\<close>

definition declares :: "env \<Rightarrow> string \<Rightarrow> string \<Rightarrow> bool" where
  "declares e name col =
     (col \<in> set (map column_name (filter (names_table name) (information_schema e))))"

text \<open>
The query of the Schema Inspector goes through: a connection is there, it has not been
  closed, and the server does not refuse the catalog query.
\<close>

definition inspector_succeeds :: "env \<Rightarrow> db \<Rightarrow> string \<Rightarrow> bool" where
  "inspector_succeeds e s name =
     (fst (get_connection e s) \<and> conn s \<noteq> Closed \<and> \<not> catalog_fails e name)"



section \<open>Example worlds\<close>

text \<open>
A server that accepts everything, with an empty catalog and a clock that advances by
  one at every reading; a connector that has not connected yet.
\<close>

definition quiet_env :: env where
  "quiet_env =
     \<lparr>can_connect = True, information_schema = [],
      catalog_fails = (\<lambda>name. False), insert_fails = (\<lambda>name r. False),
      truncate_fails = (\<lambda>name. False), commit_fails = False, rollback_fails = False,
      engine_fails = False, to_sql_fails = (\<lambda>name. False),
      clock = (\<lambda>n. n), http_get = (\<lambda>url. None)\<rparr>"

definition fresh_db :: db where
  "fresh_db = \<lparr>conn = NoConn, pending = [], tables = (\<lambda>name. []), ticks = 0\<rparr>"

text \<open>
A document table \<open>events\<close> and a structured table \<open>landing.prices\<close>.
\<close>

definition events_env :: env where
  "events_env = quiet_env\<lparr>information_schema :=
     [\<lparr>table_schema = ''public'', table_name = ''events'', column_name = ''loaded_at'', ordinal_position = 2\<rparr>,
      \<lparr>table_schema = ''public'', table_name = ''events'', column_name = ''raw_data'', ordinal_position = 1\<rparr>,
      \<lparr>table_schema = ''public'', table_name = ''events'', column_name = ''request_timestamp'', ordinal_position = 3\<rparr>]\<rparr>"

definition broken_catalog_env :: env where
  "broken_catalog_env = events_env\<lparr>catalog_fails := (\<lambda>name. True)\<rparr>"

definition prices_env :: env where
  "prices_env = quiet_env\<lparr>information_schema :=
     [\<lparr>table_schema = ''landing'', table_name = ''prices'', column_name = ''id'', ordinal_position = 1\<rparr>,
      \<lparr>table_schema = ''landing'', table_name = ''prices'', column_name = ''price'', ordinal_position = 2\<rparr>,
      \<lparr>table_schema = ''landing'', table_name = ''prices'', column_name = ''loaded_at'', ordinal_position = 3\<rparr>]\<rparr>"

definition prices_frame :: dataframe where
  "prices_frame = \<lparr>columns = [''Id'', ''Price'', ''Note''], rows = [[PInt 1, PInt 10, PStr ''x'']]\<rparr>"

definition stocked_db :: db where
  "stocked_db = fresh_db\<lparr>tables := (\<lambda>name. [[(''raw_data'', PJson (PInt 0))]])\<rparr>"

text \<open>
A server that refuses the catalog query and, the transaction being aborted by it, every
  statement after it; a frame without rows.
\<close>

definition aborted_env :: env where
  "aborted_env = broken_catalog_env\<lparr>truncate_fails := (\<lambda>name. True),
                                     insert_fails := (\<lambda>name r. True)\<rparr>"

definition empty_frame :: dataframe where
  "empty_frame = \<lparr>columns = [''Id'', ''Price''], rows = []\<rparr>"

definition example_batch :: pyval where
  "example_batch = PList [PInt 1, PInt 2]"

text \<open>
An object store that answers every request with the same page.
\<close>

definition page :: http_response where
  "page = \<lparr>status_code = 200, json_body = Some (PList [PInt 1]),
            csv_body = Some \<lparr>columns = [''Id''], rows = [[PInt 1]]\<rparr>\<rparr>"

definition web_env :: env where
  "web_env = quiet_env\<lparr>http_get := (\<lambda>url. Some page)\<rparr>"

definition bucket :: s3_config where
  "bucket = \<lparr>bucket_name = ''b'', region = ''r'', files = [(''DATA.CSV'', ''prices'')]\<rparr>"

section \<open>Properties of the string functions\<close>

lemma underscore_code: "(c = CHR ''_'') = ((of_char c :: nat) = 95)"
proof -
  have "(of_char (CHR ''_'') :: nat) = 95" by simp
  then show ?thesis by (metis of_char_eq_iff)
qed

lemma dash_code: "(c = CHR ''-'') = ((of_char c :: nat) = 45)"
proof -
  have "(of_char (CHR ''-'') :: nat) = 45" by simp
  then show ?thesis by (metis of_char_eq_iff)
qed

lemma py_lower_char_sep: "is_sep (py_lower_char c) \<Longrightarrow> is_sep c"
  by (auto simp: py_lower_char_def is_sep_def is_space_def Let_def dash_code split: if_splits)

lemma py_lower_char_underscore: "is_underscore (py_lower_char c) = is_underscore c"
  by (auto simp: py_lower_char_def is_underscore_def Let_def underscore_code)

lemma py_lower_char_idem: "py_lower_char (py_lower_char c) = py_lower_char c"
  by (auto simp: py_lower_char_def Let_def)

lemma py_lower_char_not_upper: "\<not> is_upper (py_lower_char c)"
  by (auto simp: py_lower_char_def is_upper_def Let_def)

lemma underscore_not_sep: "is_underscore c \<Longrightarrow> \<not> is_sep c"
  by (auto simp: is_underscore_def is_sep_def is_space_def)

lemma underscore_not_upper: "is_underscore c \<Longrightarrow> \<not> is_upper c"
  by (auto simp: is_underscore_def is_upper_def)

lemma sub_separators_no_sep: "c \<in> set (sub_separators s) \<Longrightarrow> \<not> is_sep c"
proof (induction s rule: sub_separators.induct)
  case 1
  then show ?case by simp
next
  case (2 d ds)
  then show ?case
    by (auto simp: is_sep_def is_space_def split: if_splits)
qed

lemma sub_camel_chars: "set (sub_camel s) \<subseteq> insert CHR ''_'' (set s)"
  by (induction s rule: sub_camel.induct) auto

lemma sub_underscores_chars: "set (sub_underscores s) \<subseteq> set s"
proof (induction s rule: sub_underscores.induct)
  case 1
  then show ?case by simp
next
  case (2 c cs)
  have "set (dropWhile is_underscore cs) \<subseteq> set cs"
    by (auto dest: set_dropWhileD)
  with 2 show ?case
    by (auto simp: is_underscore_def)
qed

lemma strip_underscores_chars: "set (strip_underscores s) \<subseteq> set s"
  by (auto simp: strip_underscores_def dest!: set_dropWhileD)

lemma sub_separators_fixed: "\<forall>c\<in>set s. \<not> is_sep c \<Longrightarrow> sub_separators s = s"
  by (induction s) auto

lemma sub_camel_fixed: "\<forall>c\<in>set s. \<not> is_upper c \<Longrightarrow> sub_camel s = s"
  by (induction s rule: sub_camel.induct) auto

lemma py_lower_fixed: "\<forall>c\<in>set s. py_lower_char c = c \<Longrightarrow> py_lower s = s"
  by (simp add: py_lower_def map_idI)

lemma last_dropWhile_keep: "dropWhile P xs \<noteq> [] \<Longrightarrow> last (dropWhile P xs) = last xs"
  by (induction xs) (auto split: if_splits)

lemma strip_underscores_trimmed: "trimmed (strip_underscores s)"
proof -
  let ?d = "dropWhile is_underscore s"
  let ?e = "dropWhile is_underscore (rev ?d)"
  show ?thesis
  proof (cases "?e = []")
    case True
    then show ?thesis by (simp add: trimmed_def strip_underscores_def)
  next
    case False
    then have d: "?d \<noteq> []" by (metis dropWhile.simps(1) rev.simps(1))
    have "\<not> is_underscore (hd ?e)" using False by (rule hd_dropWhile)
    then have l: "\<not> is_underscore (last (rev ?e))" using False by (simp add: last_rev)
    have "last ?e = last (rev ?d)" using False by (rule last_dropWhile_keep)
    then have "hd (rev ?e) = hd ?d" using False d by (simp add: hd_rev last_rev)
    moreover have "\<not> is_underscore (hd ?d)" using d by (rule hd_dropWhile)
    ultimately show ?thesis using l by (simp add: trimmed_def strip_underscores_def)
  qed
qed

lemma strip_underscores_fixed: "trimmed s \<Longrightarrow> strip_underscores s = s"
proof (cases "s = []")
  case True
  then show ?thesis by (simp add: strip_underscores_def)
next
  case False
  assume "trimmed s"
  with False have h: "\<not> is_underscore (hd s)" and l: "\<not> is_underscore (last s)"
    by (auto simp: trimmed_def)
  from h False have "dropWhile is_underscore s = s" by (simp add: dropWhile_eq_self_iff)
  moreover from l False have "dropWhile is_underscore (rev s) = rev s"
    by (simp add: dropWhile_eq_self_iff hd_rev)
  ultimately show ?thesis by (simp add: strip_underscores_def)
qed

lemma sub_underscores_nonempty: "s \<noteq> [] \<Longrightarrow> sub_underscores s \<noteq> []"
  by (cases s) auto

lemma sub_underscores_hd: "s \<noteq> [] \<Longrightarrow> is_underscore (hd (sub_underscores s)) = is_underscore (hd s)"
  by (cases s) (auto simp: is_underscore_def)

lemma sub_underscores_last:
  "s \<noteq> [] \<Longrightarrow> \<not> is_underscore (last s) \<Longrightarrow> \<not> is_underscore (last (sub_underscores s))"
proof (induction s rule: sub_underscores.induct)
  case 1
  then show ?case by simp
next
  case (2 c cs)
  show ?case
  proof (cases "is_underscore c")
    case True
    with 2(4) have cs: "cs \<noteq> []" by auto
    with 2(4) have lcs: "\<not> is_underscore (last cs)" by simp
    have ne: "dropWhile is_underscore cs \<noteq> []"
    proof
      assume "dropWhile is_underscore cs = []"
      then have "\<forall>x\<in>set cs. is_underscore x" by (simp add: dropWhile_eq_Nil_conv)
      with cs lcs show False using last_in_set by blast
    qed
    then have "last (dropWhile is_underscore cs) = last cs" by (rule last_dropWhile_keep)
    with 2(1)[OF True ne] lcs True ne show ?thesis
      by (simp add: sub_underscores_nonempty)
  next
    case False
    show ?thesis
    proof (cases "cs = []")
      case True
      with False show ?thesis by simp
    next
      case ne: False
      with 2(2)[OF False ne] 2(4) False show ?thesis
        by (simp add: sub_underscores_nonempty)
    qed
  qed
qed

lemma sub_underscores_trimmed: "trimmed s \<Longrightarrow> trimmed (sub_underscores s)"
  by (cases "s = []")
     (auto simp: trimmed_def sub_underscores_hd sub_underscores_last sub_underscores_nonempty)

lemma sub_underscores_idem: "sub_underscores (sub_underscores s) = sub_underscores s"
proof (induction s rule: sub_underscores.induct)
  case 1
  then show ?case by simp
next
  case (2 c cs)
  show ?case
  proof (cases "is_underscore c")
    case True
    let ?d = "dropWhile is_underscore cs"
    have "dropWhile is_underscore (sub_underscores ?d) = sub_underscores ?d"
    proof (cases "?d = []")
      case True
      then show ?thesis by (simp only: sub_underscores.simps dropWhile.simps)
    next
      case False
      then have "\<not> is_underscore (hd ?d)" by (rule hd_dropWhile)
      with False show ?thesis
        by (simp add: dropWhile_eq_self_iff sub_underscores_hd)
    qed
    with 2(1)[OF True] True show ?thesis by (simp add: is_underscore_def)
  next
    case False
    with 2(2) show ?thesis by simp
  qed
qed

lemma camel_to_snake_chars:
  assumes "c \<in> set (camel_to_snake s)"
  shows "\<not> is_sep c \<and> \<not> is_upper c \<and> py_lower_char c = c"
proof -
  from assms have "c \<in> set (py_lower (sub_camel (sub_separators s)))"
    using sub_underscores_chars strip_underscores_chars
    by (auto simp: camel_to_snake_def Let_def)
  then obtain d where d: "d \<in> set (sub_camel (sub_separators s))" and c: "c = py_lower_char d"
    by (auto simp: py_lower_def)
  from d sub_camel_chars have "d = CHR ''_'' \<or> d \<in> set (sub_separators s)" by auto
  then have "\<not> is_sep d"
    using sub_separators_no_sep underscore_not_sep by (auto simp: is_underscore_def)
  with c show ?thesis
    using py_lower_char_sep py_lower_char_not_upper py_lower_char_idem by auto
qed


text \<open>
  C8. Column-name normalization is idempotent: for every string, \<open>camel_to_snake\<close> applied
  to its own output returns that output unchanged.
\<close>

theorem camel_to_snake_idempotent: "camel_to_snake (camel_to_snake s) = camel_to_snake s"
proof -
  let ?t = "camel_to_snake s"
  have 1: "sub_separators ?t = ?t"
    by (rule sub_separators_fixed) (simp add: camel_to_snake_chars)
  have 2: "sub_camel ?t = ?t"
    by (rule sub_camel_fixed) (simp add: camel_to_snake_chars)
  have 3: "py_lower ?t = ?t"
    by (rule py_lower_fixed) (simp add: camel_to_snake_chars)
  have "trimmed ?t"
    by (simp add: camel_to_snake_def Let_def sub_underscores_trimmed strip_underscores_trimmed)
  then have 4: "strip_underscores ?t = ?t" by (rule strip_underscores_fixed)
  have 5: "sub_underscores ?t = ?t"
    by (simp add: camel_to_snake_def Let_def sub_underscores_idem)
  have "camel_to_snake ?t = sub_underscores (strip_underscores (py_lower (sub_camel (sub_separators ?t))))"
    by (simp add: camel_to_snake_def[of ?t] Let_def)
  then show ?thesis by (simp only: 1 2 3 4 5)
qed

section \<open>The Schema Inspector\<close>

lemma names_table_qualified:
  "has_dot name \<Longrightarrow> split_dot name = (x1, x2) \<Longrightarrow>
   names_table name = (\<lambda>r. table_schema r = x1 \<and> table_name r = x2)"
  by (simp add: names_table_def fun_eq_iff)

lemma names_table_unqualified:
  "\<not> has_dot name \<Longrightarrow> names_table name = (\<lambda>r. table_name r = name)"
  by (simp add: names_table_def fun_eq_iff)

lemma get_table_columns_cases:
  "fst (get_table_columns e s name) =
     (if \<not> fst (get_connection e s) \<or> conn s = Closed \<or> catalog_fails e name then []
      else map column_name (sort_key ordinal_position (filter (names_table name) (information_schema e))))"
  by (auto simp: get_table_columns_def get_table_columns_try_def get_connection_def cursor_def
      select_columns_def names_table_qualified names_table_unqualified
      split: prod.splits sum.splits if_splits)

lemma get_table_columns_state:
  "snd (get_table_columns e s name) = snd (get_connection e s)"
  by (auto simp: get_table_columns_def get_table_columns_try_def 
      split: prod.splits sum.splits if_splits)

lemma get_table_columns_try_error:
  "get_table_columns_try e s name = (Inl x, s1) \<Longrightarrow> get_table_columns e s name = ([], s1)"
  by (simp add: get_table_columns_def)

text \<open>
  C9. \<open>get_table_columns\<close> never fails. Whatever exception the body of its \<open>try\<close> raises,
  the result is the empty list: so it is when no connection can be made, when the connection
  object is closed and when the catalog query is refused. It is the empty list as well when
  no catalog row belongs to the table (the table is absent or has no columns). Otherwise
  the result is the column names of the catalog rows of the table, qualified by a schema or
  not, in the order of their ordinal positions.
\<close>

theorem get_table_columns_never_fails:
  "(\<forall>x s1. get_table_columns_try e s name = (Inl x, s1) \<longrightarrow> fst (get_table_columns e s name) = [])
   \<and> (\<not> fst (get_connection e s) \<or> conn s = Closed \<or> catalog_fails e name
        \<longrightarrow> fst (get_table_columns e s name) = [])
   \<and> ((\<forall>r \<in> set (information_schema e). \<not> names_table name r)
        \<longrightarrow> fst (get_table_columns e s name) = [])
   \<and> (fst (get_connection e s) \<and> conn s \<noteq> Closed \<and> \<not> catalog_fails e name
        \<longrightarrow> (\<exists>rs. fst (get_table_columns e s name) = map column_name rs
                 \<and> sorted (map ordinal_position rs)
                 \<and> set rs = {r \<in> set (information_schema e). names_table name r}
                 \<and> length rs = length (filter (names_table name) (information_schema e))))"
proof -
  let ?rs = "sort_key ordinal_position (filter (names_table name) (information_schema e))"
  have 1: "\<forall>x s1. get_table_columns_try e s name = (Inl x, s1) \<longrightarrow> fst (get_table_columns e s name) = []"
    by (simp add: get_table_columns_try_error)
  have 2: "\<not> fst (get_connection e s) \<or> conn s = Closed \<or> catalog_fails e name
        \<longrightarrow> fst (get_table_columns e s name) = []"
    by (simp add: get_table_columns_cases)
  have 3: "(\<forall>r \<in> set (information_schema e). \<not> names_table name r)
        \<longrightarrow> fst (get_table_columns e s name) = []"
    by (simp add: get_table_columns_cases)
  have "sorted (map ordinal_position ?rs)" by simp
  moreover have "set ?rs = {r \<in> set (information_schema e). names_table name r}" by auto
  moreover have "length ?rs = length (filter (names_table name) (information_schema e))" by simp
  ultimately have 4: "fst (get_connection e s) \<and> conn s \<noteq> Closed \<and> \<not> catalog_fails e name
        \<longrightarrow> (\<exists>rs. fst (get_table_columns e s name) = map column_name rs
                 \<and> sorted (map ordinal_position rs)
                 \<and> set rs = {r \<in> set (information_schema e). names_table name r}
                 \<and> length rs = length (filter (names_table name) (information_schema e)))"
    by (auto simp: get_table_columns_cases)
  from 1 2 3 4 show ?thesis by blast
qed

text \<open>
A witness: the qualified name \<open>public.events\<close> in a catalog whose rows are out of order,
  and a catalog whose query is refused.
\<close>

theorem get_table_columns_never_fails_witness:
  "fst (get_connection events_env fresh_db) \<and> conn fresh_db \<noteq> Closed
   \<and> \<not> catalog_fails events_env ''public.events''
   \<and> (\<exists>rs. fst (get_table_columns events_env fresh_db ''public.events'') = map column_name rs
         \<and> sorted (map ordinal_position rs)
         \<and> set rs = {r \<in> set (information_schema events_env). names_table ''public.events'' r}
         \<and> length rs = length (filter (names_table ''public.events'') (information_schema events_env)))
   \<and> catalog_fails broken_catalog_env ''events''
   \<and> fst (get_table_columns broken_catalog_env fresh_db ''events'') = []"
proof -
  have a: "fst (get_connection events_env fresh_db) \<and> conn fresh_db \<noteq> Closed
     \<and> \<not> catalog_fails events_env ''public.events''" by code_simp
  have b: "catalog_fails broken_catalog_env ''events''" by code_simp
  from a b get_table_columns_never_fails[of events_env fresh_db "''public.events''"]
    get_table_columns_never_fails[of broken_catalog_env fresh_db "''events''"]
  show ?thesis by blast
qed

section \<open>The column list of the Document Loader\<close>

text \<open>
  C4 (as amended). The column list of the insert statement is \<open>raw_data\<close>, always, followed by
  those of \<open>loaded_at\<close>, \<open>file_name\<close>, \<open>api_endpoint\<close>, \<open>request_timestamp\<close>,
  \<open>response_status\<close>, in this order, that the destination declares, where \<open>file_name\<close> and
  \<open>api_endpoint\<close> also need an argument that is true in Python's sense (neither \<open>None\<close> nor
  empty) and \<open>response_status\<close> an argument that is not \<open>None\<close>. So \<open>loaded_at\<close> and
  \<open>request_timestamp\<close> depend on the destination alone. Every row has one value per
  column of the list, and a metadata column that the destination lacks is not in the list.
\<close>

theorem insert_columns_policy:
  "insert_columns tc fn ae rs =
     ''raw_data'' #
     filter (\<lambda>c. c \<in> set tc
                \<and> (c = ''file_name'' \<longrightarrow> truthy fn)
                \<and> (c = ''api_endpoint'' \<longrightarrow> truthy ae)
                \<and> (c = ''response_status'' \<longrightarrow> rs \<noteq> PNone))
       [''loaded_at'', ''file_name'', ''api_endpoint'', ''request_timestamp'', ''response_status'']
   \<and> length (fst (row_values e tc fn ae rs rt n obj)) = length (insert_columns tc fn ae rs)
   \<and> (\<forall>c. c \<in> set (insert_columns tc fn ae rs) \<longrightarrow> c = ''raw_data'' \<or> c \<in> set tc)"
  by (simp add: insert_columns_def row_values_def now_def)

text \<open>
A witness: a file name is given, no status; the destination has no \<open>loaded_at\<close>.
\<close>

theorem insert_columns_policy_witness:
  "insert_columns [''raw_data'', ''file_name'', ''request_timestamp'', ''response_status'']
       (PStr ''items.json'') PNone PNone
     = [''raw_data'', ''file_name'', ''request_timestamp'']
   \<and> length (fst (row_values quiet_env
         [''raw_data'', ''file_name'', ''request_timestamp'', ''response_status'']
         (PStr ''items.json'') PNone PNone 0 1 (PInt 7))) = 3"
  using insert_columns_policy [of "[''raw_data'', ''file_name'', ''request_timestamp'', ''response_status'']"
      "PStr ''items.json''" PNone PNone quiet_env 0 1 "PInt 7"]
  by simp

text \<open>
The statement as first written fails: the destination declares \<open>api_endpoint\<close>, no
  endpoint is given (as when a file of the object store is loaded), and the column is left out.
\<close>

theorem api_endpoint_needs_argument:
  "''api_endpoint'' \<in> set [''raw_data'', ''api_endpoint'']
   \<and> insert_columns [''raw_data'', ''api_endpoint''] (PStr ''items.json'') PNone PNone = [''raw_data'']"
  by code_simp

section \<open>The Document Loader\<close>

lemma row_values_ticks: "snd (row_values e tc fn ae rs rt n obj) = n + reads_per_row tc"
  by (simp add: row_values_def now_def reads_per_row_def)

lemma get_connection_idem: "get_connection e (snd (get_connection e s)) = (fst (get_connection e s), snd (get_connection e s))"
  by (simp add: get_connection_def)

lemma get_connection_fields:
  "pending (snd (get_connection e s)) = pending s"
  "tables (snd (get_connection e s)) = tables s"
  "ticks (snd (get_connection e s)) = ticks s"
  by (simp_all add: get_connection_def)

lemma get_connection_conn:
  "conn (snd (get_connection e s)) = (if conn s = NoConn \<and> can_connect e then Opened else conn s)"
  "fst (get_connection e s) = (conn s \<noteq> NoConn \<or> can_connect e)"
  by (simp_all add: get_connection_def)

lemma get_table_columns_after_connection:
  "get_table_columns e (snd (get_connection e s)) name = get_table_columns e s name"
  by (auto simp: get_table_columns_def get_table_columns_try_def get_connection_def cursor_def)

lemma fold_inserts:
  "fold apply_stmt (map (Ins name) rs) T = T(name := T name @ rs)"
  by (induction rs arbitrary: T) auto

lemma insert_records_ok:
  "insert_records e name (insert_columns tc fn ae rs) tc fn ae rs rt recs cnt s = (Inr m, s') \<Longrightarrow>
   s' = s\<lparr>ticks := ticks s + reads_per_row tc * length recs,
          pending := pending s @ map (Ins name) (batch_rows e tc fn ae rs rt (ticks s) recs)\<rparr>
   \<and> m = cnt + length recs
   \<and> (\<forall>r \<in> set (batch_rows e tc fn ae rs rt (ticks s) recs). \<not> insert_fails e name r)"
proof (induction recs arbitrary: cnt s)
  case Nil
  then show ?case by simp
next
  case (Cons obj rest)
  obtain vals n1 where rv: "row_values e tc fn ae rs rt (ticks s) obj = (vals, n1)"
    by (cases "row_values e tc fn ae rs rt (ticks s) obj")
  with row_values_ticks[of e tc fn ae rs rt "ticks s" obj]
  have n1: "n1 = ticks s + reads_per_row tc" by simp
  let ?r = "zip (insert_columns tc fn ae rs) vals"
  from Cons.prems rv have ok: "\<not> insert_fails e name ?r"
    by (auto simp: execute_insert_def split: if_splits)
  let ?s1 = "s\<lparr>ticks := n1, pending := pending s @ [Ins name ?r]\<rparr>"
  from Cons.prems rv ok
  have "insert_records e name (insert_columns tc fn ae rs) tc fn ae rs rt rest (cnt + 1) ?s1 = (Inr m, s')"
    by (simp add: execute_insert_def)
  from Cons.IH[OF this] rv ok n1 show ?case
    by (simp add: algebra_simps)
qed

lemma insert_records_error:
  "insert_records e name (insert_columns tc fn ae rs) tc fn ae rs rt recs cnt s = (Inl x, s') \<Longrightarrow>
   conn s' = conn s \<and> tables s' = tables s
   \<and> (\<exists>r \<in> set (batch_rows e tc fn ae rs rt (ticks s) recs). insert_fails e name r)"
proof (induction recs arbitrary: cnt s)
  case Nil
  then show ?case by simp
next
  case (Cons obj rest)
  obtain vals n1 where rv: "row_values e tc fn ae rs rt (ticks s) obj = (vals, n1)"
    by (cases "row_values e tc fn ae rs rt (ticks s) obj")
  let ?r = "zip (insert_columns tc fn ae rs) vals"
  show ?case
  proof (cases "insert_fails e name ?r")
    case True
    with Cons.prems rv show ?thesis by (auto simp: execute_insert_def)
  next
    case False
    let ?s1 = "s\<lparr>ticks := n1, pending := pending s @ [Ins name ?r]\<rparr>"
    from Cons.prems rv False
    have "insert_records e name (insert_columns tc fn ae rs) tc fn ae rs rt rest (cnt + 1) ?s1 = (Inl x, s')"
      by (simp add: execute_insert_def)
    from Cons.IH[OF this] rv show ?thesis by simp
  qed
qed

lemma batch_rows_length: "length (batch_rows e tc fn ae rs rt n recs) = length recs"
  by (induction recs arbitrary: n) (auto split: prod.splits)

lemma load_try_unfold:
  "load_to_landing_try e s json_data name fn ae rs =
     (let s1 = snd (get_connection e s); tc = fst (get_table_columns e s name) in
      if \<not> fst (get_connection e s) then (Inl AttributeError, s1)
      else if conn s = Closed then (Inl InterfaceError, s1)
      else
        (case insert_records e name (insert_columns tc fn ae rs) tc fn ae rs (clock e (ticks s))
                (as_records json_data) 0 (s1\<lparr>ticks := Suc (ticks s)\<rparr>) of
           (Inl x, sc) \<Rightarrow> (Inl x, sc)
         | (Inr n, sc) \<Rightarrow>
             (case commit e sc of
                (Inl x, sd) \<Rightarrow> (Inl x, sd)
              | (Inr _, sd) \<Rightarrow> (Inr True, sd))))"
proof -
  obtain h s1 where gc: "get_connection e s = (h, s1)" by (cases "get_connection e s")
  have c1: "conn s1 = Closed \<longleftrightarrow> conn s = Closed"
    using gc by (auto simp: get_connection_def split: if_splits)
  have t1: "ticks s1 = ticks s" using get_connection_fields(3)[of e s] gc by simp
  have g: "get_table_columns e s1 name = get_table_columns e s name"
    using get_table_columns_after_connection[of e s name] gc by simp
  have st: "snd (get_table_columns e s name) = s1"
    using gc by (auto simp: get_table_columns_def get_table_columns_try_def
        split: prod.splits sum.splits if_splits)
  obtain tc where tc: "get_table_columns e s name = (tc, s1)"
    using st by (cases "get_table_columns e s name") simp
  show ?thesis
    using gc c1 t1 g tc
    by (simp add: load_to_landing_try_def Let_def cursor_def now_def split: prod.splits sum.splits)
qed

lemma load_true:
  assumes "load_to_landing e s json_data name fn ae rs = (Inr True, s')"
  shows "fst (get_connection e s) \<and> conn s \<noteq> Closed \<and> \<not> commit_fails e
         \<and> (\<forall>r \<in> set (call_rows e s json_data name fn ae rs). \<not> insert_fails e name r)
         \<and> tables s' = (let T = fold apply_stmt (pending s) (tables s)
                         in T(name := T name @ call_rows e s json_data name fn ae rs))
         \<and> pending s' = [] \<and> conn s' = Opened"
proof -
  let ?s1 = "snd (get_connection e s)"
  let ?tc = "fst (get_table_columns e s name)"
  from assms have tr: "load_to_landing_try e s json_data name fn ae rs = (Inr True, s')"
    by (auto simp: load_to_landing_def rollback_def split: prod.splits sum.splits if_splits)
  then have h: "fst (get_connection e s)" and c: "conn s \<noteq> Closed"
    by (auto simp: load_try_unfold Let_def split: if_splits)
  from tr h c obtain n sc where
    ir: "insert_records e name (insert_columns ?tc fn ae rs) ?tc fn ae rs (clock e (ticks s))
           (as_records json_data) 0 (?s1\<lparr>ticks := Suc (ticks s)\<rparr>) = (Inr n, sc)"
    and cm: "commit e sc = (Inr (), s')"
    by (auto simp: load_try_unfold Let_def split: prod.splits sum.splits)
  from insert_records_ok[OF ir]
  have sc: "sc = ?s1\<lparr>ticks := Suc (ticks s) + reads_per_row ?tc * length (as_records json_data),
                     pending := pending s @ map (Ins name) (call_rows e s json_data name fn ae rs)\<rparr>"
    and nf: "\<forall>r \<in> set (call_rows e s json_data name fn ae rs). \<not> insert_fails e name r"
    by (simp_all add: call_rows_def get_connection_fields)
  from cm sc have "\<not> commit_fails e" "conn sc = Opened"
    and "s' = sc\<lparr>tables := fold apply_stmt (pending sc) (tables sc), pending := []\<rparr>"
    by (auto simp: commit_def split: if_splits)
  with sc h c nf show ?thesis
    by (simp add: get_connection_fields fold_inserts Let_def)
qed

lemma load_true_iff:
  "fst (load_to_landing e s json_data name fn ae rs) = Inr True \<longleftrightarrow>
     fst (get_connection e s) \<and> conn s \<noteq> Closed \<and> \<not> commit_fails e
     \<and> (\<forall>r \<in> set (call_rows e s json_data name fn ae rs). \<not> insert_fails e name r)"
proof
  assume "fst (load_to_landing e s json_data name fn ae rs) = Inr True"
  then obtain s' where "load_to_landing e s json_data name fn ae rs = (Inr True, s')"
    by (cases "load_to_landing e s json_data name fn ae rs") simp
  from load_true[OF this] show "fst (get_connection e s) \<and> conn s \<noteq> Closed \<and> \<not> commit_fails e
     \<and> (\<forall>r \<in> set (call_rows e s json_data name fn ae rs). \<not> insert_fails e name r)"
    by simp
next
  let ?s1 = "snd (get_connection e s)"
  let ?tc = "fst (get_table_columns e s name)"
  let ?ir = "insert_records e name (insert_columns ?tc fn ae rs) ?tc fn ae rs (clock e (ticks s))
           (as_records json_data) 0 (?s1\<lparr>ticks := Suc (ticks s)\<rparr>)"
  assume a: "fst (get_connection e s) \<and> conn s \<noteq> Closed \<and> \<not> commit_fails e
     \<and> (\<forall>r \<in> set (call_rows e s json_data name fn ae rs). \<not> insert_fails e name r)"
  obtain res sc where ir: "?ir = (res, sc)" by (cases ?ir)
  have "\<exists>n. res = Inr n"
  proof (cases res)
    case (Inl y)
    from insert_records_error[OF ir[unfolded Inl]]
    have "\<exists>r \<in> set (call_rows e s json_data name fn ae rs). insert_fails e name r"
      by (simp add: call_rows_def)
    with a show ?thesis by blast
  next
    case (Inr n)
    then show ?thesis by blast
  qed
  then obtain n where n: "res = Inr n" by blast
  from insert_records_ok[OF ir[unfolded n]] have "conn sc = conn ?s1" by simp
  with a have "conn sc = Opened" by (simp add: get_connection_conn) (cases "conn s"; simp)
  with a ir n show "fst (load_to_landing e s json_data name fn ae rs) = Inr True"
    by (simp add: load_to_landing_def load_try_unfold Let_def commit_def)
qed

lemma load_false:
  assumes "load_to_landing e s json_data name fn ae rs = (Inr False, s')"
  shows "tables s' = tables s \<and> (pending s' = [] \<or> conn s' = NoConn)"
proof -
  let ?s1 = "snd (get_connection e s)"
  let ?tc = "fst (get_table_columns e s name)"
  let ?ir = "insert_records e name (insert_columns ?tc fn ae rs) ?tc fn ae rs (clock e (ticks s))
           (as_records json_data) 0 (?s1\<lparr>ticks := Suc (ticks s)\<rparr>)"
  obtain res sc where ir: "?ir = (res, sc)" by (cases ?ir)
  have t3: "tables sc = tables s"
  proof (cases res)
    case (Inl y)
    from insert_records_error[OF ir[unfolded Inl]]
    show ?thesis by (simp add: get_connection_fields)
  next
    case (Inr n)
    from insert_records_ok[OF ir[unfolded Inr]] show ?thesis by (simp add: get_connection_fields)
  qed
  from assms ir t3 show ?thesis
    by (auto simp: load_to_landing_def load_try_unfold Let_def rollback_def commit_def
        get_connection_fields get_connection_def
        split: prod.splits sum.splits if_splits)
qed

lemma load_raises:
  assumes "load_to_landing e s json_data name fn ae rs = (Inl x, s')"
  shows "conn s = Closed \<or> rollback_fails e"
proof -
  let ?s1 = "snd (get_connection e s)"
  let ?tc = "fst (get_table_columns e s name)"
  let ?ir = "insert_records e name (insert_columns ?tc fn ae rs) ?tc fn ae rs (clock e (ticks s))
           (as_records json_data) 0 (?s1\<lparr>ticks := Suc (ticks s)\<rparr>)"
  obtain res sc where ir: "?ir = (res, sc)" by (cases ?ir)
  have c3: "conn sc = conn ?s1"
  proof (cases res)
    case (Inl y)
    from insert_records_error[OF ir[unfolded Inl]]
    show ?thesis by simp
  next
    case (Inr n)
    from insert_records_ok[OF ir[unfolded Inr]] show ?thesis by simp
  qed
  from assms ir c3 show ?thesis
    by (cases "conn s")
       (auto simp: load_to_landing_def load_try_unfold Let_def rollback_def commit_def
        get_connection_def
        split: prod.splits sum.splits if_splits)
qed

lemma row_explicit:
  "zip (insert_columns tc fn ae rs) (fst (row_values e tc fn ae rs rt n obj)) =
     [(''raw_data'', PJson obj)]
     @ (if ''loaded_at'' \<in> set tc then [(''loaded_at'', PTime (clock e n))] else [])
     @ (if ''file_name'' \<in> set tc \<and> truthy fn then [(''file_name'', fn)] else [])
     @ (if ''api_endpoint'' \<in> set tc \<and> truthy ae then [(''api_endpoint'', ae)] else [])
     @ (if ''request_timestamp'' \<in> set tc then [(''request_timestamp'', PTime rt)] else [])
     @ (if ''response_status'' \<in> set tc \<and> rs \<noteq> PNone then [(''response_status'', rs)] else [])"
  by (simp add: insert_columns_def row_values_def now_def)

lemma row_raw_data:
  "map_of (zip (insert_columns tc fn ae rs) (fst (row_values e tc fn ae rs rt n obj))) ''raw_data''
     = Some (PJson obj)"
  by (simp add: row_explicit)

lemma row_request_timestamp:
  "''request_timestamp'' \<in> set tc \<Longrightarrow>
   map_of (zip (insert_columns tc fn ae rs) (fst (row_values e tc fn ae rs rt n obj)))
     ''request_timestamp'' = Some (PTime rt)"
  by (simp add: row_explicit)

lemma row_loaded_at:
  "''loaded_at'' \<in> set tc \<Longrightarrow>
   map_of (zip (insert_columns tc fn ae rs) (fst (row_values e tc fn ae rs rt n obj)))
     ''loaded_at'' = Some (PTime (clock e n))"
  by (simp add: row_explicit)

lemma batch_rows_Cons:
  "batch_rows e tc fn ae rs rt n (obj # rest) =
     zip (insert_columns tc fn ae rs) (fst (row_values e tc fn ae rs rt n obj))
     # batch_rows e tc fn ae rs rt (n + reads_per_row tc) rest"
  using row_values_ticks[of e tc fn ae rs rt n obj]
  by (cases "row_values e tc fn ae rs rt n obj") simp

lemma batch_rows_raw_data:
  "map (\<lambda>r. map_of r ''raw_data'') (batch_rows e tc fn ae rs rt n recs) = map (\<lambda>obj. Some (PJson obj)) recs"
  by (induction recs arbitrary: n) (simp_all add: batch_rows_Cons row_raw_data del: batch_rows.simps(2))

lemma batch_rows_request_timestamp:
  "''request_timestamp'' \<in> set tc \<Longrightarrow> r \<in> set (batch_rows e tc fn ae rs rt n recs) \<Longrightarrow>
   map_of r ''request_timestamp'' = Some (PTime rt)"
  by (induction recs arbitrary: n)
     (auto simp add: batch_rows_Cons row_request_timestamp simp del: batch_rows.simps(2))

lemma batch_rows_loaded_at:
  "''loaded_at'' \<in> set tc \<Longrightarrow> i < length recs \<Longrightarrow>
   map_of (batch_rows e tc fn ae rs rt n recs ! i) ''loaded_at'' = Some (PTime (clock e (n + i)))"
proof (induction recs arbitrary: n i)
  case Nil
  then show ?case by simp
next
  case (Cons obj rest)
  show ?case
  proof (cases i)
    case 0
    with Cons.prems show ?thesis
      by (simp add: batch_rows_Cons row_loaded_at del: batch_rows.simps(2))
  next
    case (Suc j)
    with Cons.prems have "j < length rest" by simp
    from Cons.IH[OF Cons.prems(1) this, of "n + reads_per_row tc"] Cons.prems(1) Suc
    show ?thesis
      by (simp add: batch_rows_Cons reads_per_row_def del: batch_rows.simps(2))
  qed
qed

lemma load_after_connection:
  "load_to_landing e (snd (get_connection e s)) json_data name fn ae rs
     = load_to_landing e s json_data name fn ae rs"
  by (simp add: load_to_landing_def load_to_landing_try_def get_connection_idem)

text \<open>
  C1 (as amended). In a successful call of the Document Loader, \<open>request_timestamp\<close> is
  captured once: the rows of the call are appended to the table, one per record, and when the
  destination declares \<open>request_timestamp\<close> every one of them carries the same value there,
  the reading of the clock made before the first record. \<open>loaded_at\<close>, when the destination
  declares it, is read from the clock again for every record: the row of index \<open>i\<close> carries
  the reading that follows the first one by \<open>i + 1\<close>.
\<close>

theorem batch_timestamps:
  assumes "load_to_landing e s json_data name fn ae rs = (Inr True, s')"
  shows "\<exists>new. tables s' name = fold apply_stmt (pending s) (tables s) name @ new
           \<and> length new = length (as_records json_data)
           \<and> (''request_timestamp'' \<in> set (fst (get_table_columns e s name)) \<longrightarrow>
                (\<forall>r \<in> set new. map_of r ''request_timestamp'' = Some (PTime (clock e (ticks s)))))
           \<and> (''loaded_at'' \<in> set (fst (get_table_columns e s name)) \<longrightarrow>
                (\<forall>i < length new. map_of (new ! i) ''loaded_at''
                     = Some (PTime (clock e (ticks s + 1 + i)))))"
proof -
  let ?new = "call_rows e s json_data name fn ae rs"
  from load_true[OF assms]
  have "tables s' name = fold apply_stmt (pending s) (tables s) name @ ?new"
    by (simp add: Let_def)
  moreover have "length ?new = length (as_records json_data)"
    by (simp add: call_rows_def batch_rows_length)
  moreover have "''request_timestamp'' \<in> set (fst (get_table_columns e s name)) \<longrightarrow>
                (\<forall>r \<in> set ?new. map_of r ''request_timestamp'' = Some (PTime (clock e (ticks s))))"
    by (auto simp: call_rows_def dest: batch_rows_request_timestamp)
  moreover have "''loaded_at'' \<in> set (fst (get_table_columns e s name)) \<longrightarrow>
                (\<forall>i < length ?new. map_of (?new ! i) ''loaded_at''
                     = Some (PTime (clock e (ticks s + 1 + i))))"
    by (simp add: call_rows_def batch_rows_length batch_rows_loaded_at)
  ultimately show ?thesis by blast
qed

text \<open>
A witness: two records into the table \<open>events\<close>.
\<close>

theorem batch_timestamps_witness:
  "load_to_landing events_env fresh_db example_batch ''events'' PNone PNone PNone
     = (Inr True, snd (load_to_landing events_env fresh_db example_batch ''events'' PNone PNone PNone))
   \<and> (\<exists>new. tables (snd (load_to_landing events_env fresh_db example_batch ''events'' PNone PNone PNone)) ''events''
                = fold apply_stmt (pending fresh_db) (tables fresh_db) ''events'' @ new
           \<and> length new = length (as_records example_batch)
           \<and> (''request_timestamp'' \<in> set (fst (get_table_columns events_env fresh_db ''events'')) \<longrightarrow>
                (\<forall>r \<in> set new. map_of r ''request_timestamp'' = Some (PTime (clock events_env (ticks fresh_db)))))
           \<and> (''loaded_at'' \<in> set (fst (get_table_columns events_env fresh_db ''events'')) \<longrightarrow>
                (\<forall>i < length new. map_of (new ! i) ''loaded_at''
                     = Some (PTime (clock events_env (ticks fresh_db + 1 + i))))))"
proof -
  have "fst (load_to_landing events_env fresh_db example_batch ''events'' PNone PNone PNone) = Inr True"
    by code_simp
  then have h: "load_to_landing events_env fresh_db example_batch ''events'' PNone PNone PNone
     = (Inr True, snd (load_to_landing events_env fresh_db example_batch ''events'' PNone PNone PNone))"
    by (simp add: prod_eq_iff)
  show ?thesis using h batch_timestamps[OF h] by (rule conjI)
qed

text \<open>
The statement as first written fails: with a clock that advances, the two rows of one
  call differ in \<open>loaded_at\<close>.
\<close>

theorem loaded_at_differs_within_batch:
  "fst (load_to_landing events_env fresh_db example_batch ''events'' PNone PNone PNone) = Inr True
   \<and> tables (snd (load_to_landing events_env fresh_db example_batch ''events'' PNone PNone PNone))
        ''events''
      = [[(''raw_data'', PJson (PInt 1)), (''loaded_at'', PTime 1), (''request_timestamp'', PTime 0)],
         [(''raw_data'', PJson (PInt 2)), (''loaded_at'', PTime 2), (''request_timestamp'', PTime 0)]]"
  by code_simp

text \<open>
  C5 (as amended). Where \<open>rollback\<close> does not raise (the server accepts it and the connection
  object has not been closed), a call of the Document Loader returns a boolean. If it is true,
  one row per record, holding that record as \<open>raw_data\<close>, has been committed to the table
  together, after the statements that were pending, and nothing is left pending. If it is
  false, no table has changed and nothing of the call is left pending. It is true exactly when
  a connection is there, no insert of the call is refused and the commit is accepted: a
  catalog error alone does not make the call fail.
\<close>

theorem load_to_landing_atomic:
  assumes "\<not> rollback_fails e" and "conn s \<noteq> Closed"
  shows "\<exists>b s'. load_to_landing e s json_data name fn ae rs = (Inr b, s')
     \<and> (b \<longrightarrow> (\<exists>new. length new = length (as_records json_data)
                  \<and> map (\<lambda>r. map_of r ''raw_data'') new
                      = map (\<lambda>obj. Some (PJson obj)) (as_records json_data)
                  \<and> tables s' = (let T = fold apply_stmt (pending s) (tables s)
                                  in T(name := T name @ new))
                  \<and> pending s' = []))
     \<and> (\<not> b \<longrightarrow> tables s' = tables s \<and> (pending s' = [] \<or> conn s' = NoConn))
     \<and> (b \<longleftrightarrow> fst (get_connection e s) \<and> \<not> commit_fails e
              \<and> (\<forall>r \<in> set (call_rows e s json_data name fn ae rs). \<not> insert_fails e name r))"
proof -
  obtain res s' where l: "load_to_landing e s json_data name fn ae rs = (res, s')"
    by (cases "load_to_landing e s json_data name fn ae rs")
  have "\<exists>b. res = Inr b"
  proof (cases res)
    case (Inl x)
    with l load_raises[of e s json_data name fn ae rs x s'] assms show ?thesis by simp
  next
    case (Inr b)
    then show ?thesis by blast
  qed
  then obtain b where b: "res = Inr b" by blast
  have iff: "b \<longleftrightarrow> fst (get_connection e s) \<and> \<not> commit_fails e
              \<and> (\<forall>r \<in> set (call_rows e s json_data name fn ae rs). \<not> insert_fails e name r)"
    using load_true_iff[of e s json_data name fn ae rs] l b assms(2) by simp
  have t: "b \<longrightarrow> (\<exists>new. length new = length (as_records json_data)
                  \<and> map (\<lambda>r. map_of r ''raw_data'') new
                      = map (\<lambda>obj. Some (PJson obj)) (as_records json_data)
                  \<and> tables s' = (let T = fold apply_stmt (pending s) (tables s)
                                  in T(name := T name @ new))
                  \<and> pending s' = [])"
  proof
    assume b
    with l \<open>res = Inr b\<close> have "load_to_landing e s json_data name fn ae rs = (Inr True, s')" by simp
    from load_true[OF this]
    have "tables s' = (let T = fold apply_stmt (pending s) (tables s)
                        in T(name := T name @ call_rows e s json_data name fn ae rs))"
      and "pending s' = []" by simp_all
    moreover have "length (call_rows e s json_data name fn ae rs) = length (as_records json_data)"
      by (simp add: call_rows_def batch_rows_length)
    moreover have "map (\<lambda>r. map_of r ''raw_data'') (call_rows e s json_data name fn ae rs)
                      = map (\<lambda>obj. Some (PJson obj)) (as_records json_data)"
      by (simp add: call_rows_def batch_rows_raw_data)
    ultimately show "\<exists>new. length new = length (as_records json_data)
                  \<and> map (\<lambda>r. map_of r ''raw_data'') new
                      = map (\<lambda>obj. Some (PJson obj)) (as_records json_data)
                  \<and> tables s' = (let T = fold apply_stmt (pending s) (tables s)
                                  in T(name := T name @ new))
                  \<and> pending s' = []" by blast
  qed
  have f: "\<not> b \<longrightarrow> tables s' = tables s \<and> (pending s' = [] \<or> conn s' = NoConn)"
  proof
    assume "\<not> b"
    with l \<open>res = Inr b\<close> have "load_to_landing e s json_data name fn ae rs = (Inr False, s')" by simp
    from load_false[OF this] show "tables s' = tables s \<and> (pending s' = [] \<or> conn s' = NoConn)" .
  qed
  from l b iff t f show ?thesis by blast
qed

text \<open>
A witness: two records into the table \<open>events\<close>.
\<close>

theorem load_to_landing_atomic_witness:
  "\<not> rollback_fails events_env \<and> conn fresh_db \<noteq> Closed
   \<and> (\<exists>b s'. load_to_landing events_env fresh_db example_batch ''events'' PNone PNone PNone = (Inr b, s')
     \<and> (b \<longrightarrow> (\<exists>new. length new = length (as_records example_batch)
                  \<and> map (\<lambda>r. map_of r ''raw_data'') new
                      = map (\<lambda>obj. Some (PJson obj)) (as_records example_batch)
                  \<and> tables s' = (let T = fold apply_stmt (pending fresh_db) (tables fresh_db)
                                  in T(''events'' := T ''events'' @ new))
                  \<and> pending s' = []))
     \<and> (\<not> b \<longrightarrow> tables s' = tables fresh_db \<and> (pending s' = [] \<or> conn s' = NoConn))
     \<and> (b \<longleftrightarrow> fst (get_connection events_env fresh_db) \<and> \<not> commit_fails events_env
              \<and> (\<forall>r \<in> set (call_rows events_env fresh_db example_batch ''events'' PNone PNone PNone).
                    \<not> insert_fails events_env ''events'' r)))"
proof -
  have h1: "\<not> rollback_fails events_env" by code_simp
  have h2: "conn fresh_db \<noteq> Closed" by code_simp
  from h1 h2 load_to_landing_atomic[OF h1 h2] show ?thesis by blast
qed

text \<open>
The statement as first written fails: the catalog query is refused, which
  \<open>get_table_columns\<close> turns into an empty column list, and the call of an empty batch
  returns true.
\<close>

theorem catalog_error_is_not_a_failure:
  "catalog_fails broken_catalog_env ''events''
   \<and> fst (get_table_columns_try broken_catalog_env fresh_db ''events'') = Inl DatabaseError
   \<and> fst (load_to_landing broken_catalog_env fresh_db (PList []) ''events'' PNone PNone PNone)
       = Inr True"
  by code_simp

section \<open>The Tabular Loader\<close>

lemma get_table_columns_declares:
  "inspector_succeeds e s name \<Longrightarrow>
   (col \<in> set (fst (get_table_columns e s name))) = declares e name col"
  by (simp add: get_table_columns_cases inspector_succeeds_def declares_def)

lemma get_table_columns_inspector_fails:
  "\<not> inspector_succeeds e s name \<Longrightarrow> fst (get_table_columns e s name) = []"
  by (auto simp: get_table_columns_cases inspector_succeeds_def)

lemma csv_load_cases:
  "csv_load_to_landing e s df name source_file =
     (if ''raw_data'' \<in> set (fst (get_table_columns e s name))
      then (case load_to_landing e s (PList (to_dict_records df)) name source_file PNone PNone of
              (Inr success, s') \<Rightarrow> (success, s')
            | (Inl x, s') \<Rightarrow> (False, s'))
      else structured_load e (snd (get_connection e s)) df name source_file
             (fst (get_table_columns e s name)))"
proof -
  obtain tc s1 where g: "get_table_columns e s name = (tc, s1)"
    by (cases "get_table_columns e s name")
  with get_table_columns_state[of e s name] have s1: "s1 = snd (get_connection e s)" by simp
  with g show ?thesis
    by (simp add: csv_load_to_landing_def Let_def load_after_connection)
qed

lemma inspector_succeeds_try:
  "inspector_succeeds e s name = (\<exists>cols. fst (get_table_columns_try e s name) = Inr cols)"
  by (auto simp: inspector_succeeds_def get_table_columns_try_def get_connection_def cursor_def
      split: prod.splits sum.splits if_splits)

text \<open>
  C2 (as amended). Where the destination declares \<open>raw_data\<close> and the query of the Schema
  Inspector goes through (a connection is there, it is not closed, the catalog query is not
  refused), the Tabular Loader hands the whole frame, one record per row, to the Document
  Loader: the state it leaves is the state that the Document Loader leaves when called
  directly on these records, with the same source identifier and neither endpoint nor
  status, and its result is the Document Loader's; where the Document Loader raises, the
  Tabular Loader returns false. Nothing of structured mode takes place. Where the query goes
  through and the destination does not declare \<open>raw_data\<close>, structured mode runs on the
  columns found. Where the query does not go through, which is where the body of the \<open>try\<close>
  of \<open>get_table_columns\<close> raises, the column list is empty and structured mode runs on it,
  whether the destination declares \<open>raw_data\<close> or not.
\<close>

theorem csv_document_mode_delegates:
  "(inspector_succeeds e s name \<and> declares e name ''raw_data''
      \<longrightarrow> csv_load_to_landing e s df name source_file =
            (case load_to_landing e s (PList (to_dict_records df)) name source_file PNone PNone of
               (Inr success, s') \<Rightarrow> (success, s')
             | (Inl x, s') \<Rightarrow> (False, s'))
          \<and> length (to_dict_records df) = length (rows df))
   \<and> (inspector_succeeds e s name \<and> \<not> declares e name ''raw_data''
      \<longrightarrow> csv_load_to_landing e s df name source_file =
            structured_load e (snd (get_connection e s)) df name source_file
              (fst (get_table_columns e s name)))
   \<and> (\<not> inspector_succeeds e s name
      \<longrightarrow> csv_load_to_landing e s df name source_file =
            structured_load e (snd (get_connection e s)) df name source_file [])
   \<and> inspector_succeeds e s name = (\<exists>cols. fst (get_table_columns_try e s name) = Inr cols)"
proof -
  have 1: "inspector_succeeds e s name \<and> declares e name ''raw_data''
      \<longrightarrow> csv_load_to_landing e s df name source_file =
            (case load_to_landing e s (PList (to_dict_records df)) name source_file PNone PNone of
               (Inr success, s') \<Rightarrow> (success, s')
             | (Inl x, s') \<Rightarrow> (False, s'))
          \<and> length (to_dict_records df) = length (rows df)"
    by (simp add: csv_load_cases get_table_columns_declares to_dict_records_def)
  have 2: "inspector_succeeds e s name \<and> \<not> declares e name ''raw_data''
      \<longrightarrow> csv_load_to_landing e s df name source_file =
            structured_load e (snd (get_connection e s)) df name source_file
              (fst (get_table_columns e s name))"
    by (simp add: csv_load_cases get_table_columns_declares)
  have 3: "\<not> inspector_succeeds e s name
      \<longrightarrow> csv_load_to_landing e s df name source_file =
            structured_load e (snd (get_connection e s)) df name source_file []"
    by (simp add: csv_load_cases get_table_columns_inspector_fails)
  have 4: "inspector_succeeds e s name = (\<exists>cols. fst (get_table_columns_try e s name) = Inr cols)"
    by (rule inspector_succeeds_try)
  from 1 2 3 4 show ?thesis by blast
qed

text \<open>
A witness: a frame loaded into the document table \<open>events\<close>, into the structured table
  \<open>landing.prices\<close>, and into \<open>events\<close> when the catalog query is refused.
\<close>

theorem csv_document_mode_delegates_witness:
  "inspector_succeeds events_env fresh_db ''events'' \<and> declares events_env ''events'' ''raw_data''
   \<and> csv_load_to_landing events_env fresh_db prices_frame ''events'' (PStr ''prices.csv'') =
       (case load_to_landing events_env fresh_db (PList (to_dict_records prices_frame)) ''events''
               (PStr ''prices.csv'') PNone PNone of
          (Inr success, s') \<Rightarrow> (success, s')
        | (Inl x, s') \<Rightarrow> (False, s'))
   \<and> length (to_dict_records prices_frame) = length (rows prices_frame)
   \<and> inspector_succeeds prices_env fresh_db ''landing.prices''
   \<and> \<not> declares prices_env ''landing.prices'' ''raw_data''
   \<and> csv_load_to_landing prices_env fresh_db prices_frame ''landing.prices'' (PStr ''prices.csv'') =
       structured_load prices_env (snd (get_connection prices_env fresh_db)) prices_frame
         ''landing.prices'' (PStr ''prices.csv'')
         (fst (get_table_columns prices_env fresh_db ''landing.prices''))
   \<and> \<not> inspector_succeeds broken_catalog_env fresh_db ''events''
   \<and> csv_load_to_landing broken_catalog_env fresh_db prices_frame ''events'' (PStr ''prices.csv'') =
       structured_load broken_catalog_env (snd (get_connection broken_catalog_env fresh_db))
         prices_frame ''events'' (PStr ''prices.csv'') []"
proof -
  have a: "inspector_succeeds events_env fresh_db ''events'' \<and> declares events_env ''events'' ''raw_data''"
    by code_simp
  have b: "inspector_succeeds prices_env fresh_db ''landing.prices''
     \<and> \<not> declares prices_env ''landing.prices'' ''raw_data''"
    by code_simp
  have c: "\<not> inspector_succeeds broken_catalog_env fresh_db ''events''"
    by code_simp
  from a b c
    csv_document_mode_delegates[of events_env fresh_db "''events''" prices_frame "PStr ''prices.csv''"]
    csv_document_mode_delegates[of prices_env fresh_db "''landing.prices''" prices_frame "PStr ''prices.csv''"]
    csv_document_mode_delegates[of broken_catalog_env fresh_db "''events''" prices_frame "PStr ''prices.csv''"]
  show ?thesis by blast
qed

text \<open>
The statement as first written fails: \<open>events\<close> declares \<open>raw_data\<close>, but the catalog
  query is refused and \<open>get_table_columns\<close> returns the empty list. The Tabular Loader then
  truncates the table, so that the row stored before is gone, where the Document Loader
  called directly keeps it and appends the record. Where the server also refuses the
  \<open>TRUNCATE\<close>, the Tabular Loader returns false on a frame without rows, and the Document
  Loader called directly returns true.
\<close>

theorem inspector_failure_takes_structured_mode:
  "declares broken_catalog_env ''events'' ''raw_data''
   \<and> catalog_fails broken_catalog_env ''events''
   \<and> fst (get_table_columns broken_catalog_env stocked_db ''events'') = []
   \<and> fst (csv_load_to_landing broken_catalog_env stocked_db prices_frame ''events''
            (PStr ''prices.csv'')) = True
   \<and> [(''raw_data'', PJson (PInt 0))]
        \<notin> set (tables (snd (csv_load_to_landing broken_catalog_env stocked_db prices_frame
                             ''events'' (PStr ''prices.csv''))) ''events'')
   \<and> fst (load_to_landing broken_catalog_env stocked_db (PList (to_dict_records prices_frame))
            ''events'' (PStr ''prices.csv'') PNone PNone) = Inr True
   \<and> tables (snd (load_to_landing broken_catalog_env stocked_db
                    (PList (to_dict_records prices_frame)) ''events'' (PStr ''prices.csv'')
                    PNone PNone)) ''events''
       = [[(''raw_data'', PJson (PInt 0))],
          [(''raw_data'',
            PJson (PDict [(''Id'', PInt 1), (''Price'', PInt 10), (''Note'', PStr ''x'')]))]]
   \<and> declares aborted_env ''events'' ''raw_data''
   \<and> fst (csv_load_to_landing aborted_env stocked_db empty_frame ''events'' PNone) = False
   \<and> fst (load_to_landing aborted_env stocked_db (PList (to_dict_records empty_frame))
            ''events'' PNone PNone PNone) = Inr True"
  by code_simp

lemma set_column_columns:
  "set (columns (set_column df name v)) = insert name (set (columns df))"
  by (auto simp: set_column_def)

lemma select_frame_columns:
  "set (columns (select_frame df (filter P (columns df)))) = {c \<in> set (columns df). P c}"
  by (auto simp: select_frame_def)

lemma split_dot_join:
  "has_dot name \<Longrightarrow> fst (split_dot name) @ CHR ''.'' # snd (split_dot name) = name"
proof -
  assume "has_dot name"
  then have "dropWhile (\<lambda>c. c \<noteq> CHR ''.'') name \<noteq> []"
    by (auto simp: has_dot_def dropWhile_eq_Nil_conv)
  then obtain d ds where d: "dropWhile (\<lambda>c. c \<noteq> CHR ''.'') name = d # ds"
    by (cases "dropWhile (\<lambda>c. c \<noteq> CHR ''.'') name") auto
  then have "d = CHR ''.''" using hd_dropWhile[of "\<lambda>c. c \<noteq> CHR ''.''" name] by auto
  with d have "takeWhile (\<lambda>c. c \<noteq> CHR ''.'') name @ ''.'' @ ds = name"
    using takeWhile_dropWhile_id[of "\<lambda>c. c \<noteq> CHR ''.''" name] by simp
  with d show ?thesis by (simp add: split_dot_def)
qed

lemma append_try_success:
  assumes "append_try e s df_filtered name = (Inr True, s')"
  shows "tables s' name = frame_rows df_filtered"
proof -
  let ?s1 = "snd (get_connection e s)"
  let ?s2 = "?s1\<lparr>pending := pending ?s1 @ [Trunc name]\<rparr>"
  let ?s3 = "?s2\<lparr>tables := fold apply_stmt (pending ?s2) (tables ?s2), pending := []\<rparr>"
  have key: "(if has_dot name then fst (split_dot name) @ ''.'' @ snd (split_dot name) else name) = name"
    by (simp add: split_dot_join)
  from assms have "to_sql e ?s3 name df_filtered = (Inr (), s')"
    using key
    by (auto simp: append_try_def execute_truncate_def commit_def cursor_def
        split: prod.splits sum.splits if_splits)
  then have "tables s' name = tables ?s3 name @ frame_rows df_filtered"
    by (auto simp: to_sql_def split: if_splits)
  then show ?thesis by simp
qed

lemma structured_load_success:
  assumes "structured_load e s df name source_file tc = (True, s')"
  shows "tables s' name = frame_rows (fst (structured_frame e (ticks s) df tc source_file))"
proof -
  obtain f n1 where sf: "structured_frame e (ticks s) df tc source_file = (f, n1)"
    by (cases "structured_frame e (ticks s) df tc source_file")
  with assms have "append_try e (s\<lparr>ticks := n1\<rparr>) f name = (Inr True, s')"
    by (auto simp: structured_load_def split: prod.splits sum.splits)
  from append_try_success[OF this] sf show ?thesis by simp
qed

text \<open>
  C3 (as amended). A successful load in structured mode truncates the destination first:
  after it the table holds the rows of the frame that was appended, and none of the rows it
  held before. The Document Loader does not truncate: after a successful call, made with
  nothing pending, the table holds the rows it held before, followed by one row per record.
\<close>

theorem truncation_by_mode:
  "(''raw_data'' \<notin> set (fst (get_table_columns e s name))
      \<and> csv_load_to_landing e s df name source_file = (True, s')
     \<longrightarrow> tables s' name
           = frame_rows (fst (structured_frame e (ticks s) df
                                (fst (get_table_columns e s name)) source_file)))
   \<and> (pending s = [] \<and> load_to_landing e s json_data name fn ae rs = (Inr True, s'')
     \<longrightarrow> (\<exists>new. length new = length (as_records json_data)
               \<and> tables s'' name = tables s name @ new))"
proof -
  have 1: "''raw_data'' \<notin> set (fst (get_table_columns e s name))
      \<and> csv_load_to_landing e s df name source_file = (True, s')
     \<longrightarrow> tables s' name
           = frame_rows (fst (structured_frame e (ticks s) df
                                (fst (get_table_columns e s name)) source_file))"
  proof
    assume a: "''raw_data'' \<notin> set (fst (get_table_columns e s name))
      \<and> csv_load_to_landing e s df name source_file = (True, s')"
    obtain tc s1 where g: "get_table_columns e s name = (tc, s1)"
      by (cases "get_table_columns e s name")
    with get_table_columns_state[of e s name] have s1: "s1 = snd (get_connection e s)" by simp
    from a g have "''raw_data'' \<notin> set tc"
      and "csv_load_to_landing e s df name source_file = (True, s')" by simp_all
    with g have "structured_load e s1 df name source_file tc = (True, s')"
      by (simp add: csv_load_to_landing_def)
    from structured_load_success[OF this] g s1 show "tables s' name
           = frame_rows (fst (structured_frame e (ticks s) df
                                (fst (get_table_columns e s name)) source_file))"
      by (simp add: get_connection_fields)
  qed
  have 2: "pending s = [] \<and> load_to_landing e s json_data name fn ae rs = (Inr True, s'')
     \<longrightarrow> (\<exists>new. length new = length (as_records json_data)
               \<and> tables s'' name = tables s name @ new)"
  proof
    assume a: "pending s = [] \<and> load_to_landing e s json_data name fn ae rs = (Inr True, s'')"
    then have l: "load_to_landing e s json_data name fn ae rs = (Inr True, s'')" by simp
    from load_true[OF l] a
    have "tables s'' name = tables s name @ call_rows e s json_data name fn ae rs"
      by (simp add: Let_def)
    moreover have "length (call_rows e s json_data name fn ae rs) = length (as_records json_data)"
      by (simp add: call_rows_def batch_rows_length)
    ultimately show "\<exists>new. length new = length (as_records json_data)
               \<and> tables s'' name = tables s name @ new" by blast
  qed
  from 1 2 show ?thesis by blast
qed

text \<open>
A witness: a structured load into \<open>landing.prices\<close>, which held a row, and a document
  load into \<open>events\<close>.
\<close>

theorem truncation_by_mode_witness:
  "''raw_data'' \<notin> set (fst (get_table_columns prices_env stocked_db ''landing.prices''))
   \<and> fst (csv_load_to_landing prices_env stocked_db prices_frame ''landing.prices'' PNone) = True
   \<and> tables (snd (csv_load_to_landing prices_env stocked_db prices_frame ''landing.prices'' PNone)) ''landing.prices''
       = frame_rows (fst (structured_frame prices_env (ticks stocked_db) prices_frame
                            (fst (get_table_columns prices_env stocked_db ''landing.prices'')) PNone))
   \<and> pending fresh_db = []
   \<and> fst (load_to_landing events_env fresh_db example_batch ''events'' PNone PNone PNone) = Inr True
   \<and> (\<exists>new. length new = length (as_records example_batch)
          \<and> tables (snd (load_to_landing events_env fresh_db example_batch ''events'' PNone PNone PNone)) ''events''
              = tables fresh_db ''events'' @ new)"
proof -
  let ?c = "csv_load_to_landing prices_env stocked_db prices_frame ''landing.prices'' PNone"
  let ?l = "load_to_landing events_env fresh_db example_batch ''events'' PNone PNone PNone"
  have a: "''raw_data'' \<notin> set (fst (get_table_columns prices_env stocked_db ''landing.prices''))"
    by code_simp
  have b: "fst ?c = True" by code_simp
  then have b': "?c = (True, snd ?c)" by (simp add: prod_eq_iff)
  have c: "pending fresh_db = []" by code_simp
  have d: "fst ?l = Inr True" by code_simp
  then have d': "?l = (Inr True, snd ?l)" by (simp add: prod_eq_iff)
  have 1: "tables (snd ?c) ''landing.prices''
       = frame_rows (fst (structured_frame prices_env (ticks stocked_db) prices_frame
                            (fst (get_table_columns prices_env stocked_db ''landing.prices'')) PNone))"
    using a b' truncation_by_mode[where e = prices_env and s = stocked_db and name = "''landing.prices''"
        and df = prices_frame and source_file = PNone and s' = "snd ?c"]
    by blast
  have 2: "\<exists>new. length new = length (as_records example_batch)
          \<and> tables (snd ?l) ''events'' = tables fresh_db ''events'' @ new"
    using c d' truncation_by_mode[where e = events_env and s = fresh_db and name = "''events''"
        and json_data = example_batch and fn = PNone and ae = PNone and rs = PNone
        and s'' = "snd ?l"]
    by blast
  from a b 1 c d 2 show ?thesis by blast
qed

text \<open>
The statement as first written fails: the row that \<open>events\<close> holds before a successful
  call of the Document Loader is still there after it.
\<close>

theorem document_load_keeps_old_rows:
  "tables stocked_db ''events'' = [[(''raw_data'', PJson (PInt 0))]]
   \<and> fst (load_to_landing events_env stocked_db (PList [PInt 1]) ''events'' PNone PNone PNone) = Inr True
   \<and> tables (snd (load_to_landing events_env stocked_db (PList [PInt 1]) ''events'' PNone PNone PNone))
        ''events''
      = [[(''raw_data'', PJson (PInt 0))],
         [(''raw_data'', PJson (PInt 1)), (''loaded_at'', PTime 1), (''request_timestamp'', PTime 0)]]"
  by code_simp

text \<open>
  C6 (as amended). In structured mode the columns of the frame that is appended are: the
  normalized names of the source columns that are names of destination columns;
  \<open>loaded_at\<close> if and only if the destination declares it; \<open>source_file\<close> if the destination
  declares it and a source identifier that is true in Python's sense is given. (A source column
  whose normalized name is \<open>loaded_at\<close> or \<open>source_file\<close> is among the first.)
\<close>

theorem structured_columns_policy:
  "set (columns (fst (structured_frame e n df tc source_file))) =
     {c \<in> camel_to_snake ` set (columns df). c \<in> set tc}
     \<union> (if ''loaded_at'' \<in> set tc then {''loaded_at''} else {})
     \<union> (if ''source_file'' \<in> set tc \<and> truthy source_file then {''source_file''} else {})"
  by (auto simp: structured_frame_def Let_def now_def select_frame_columns set_column_columns
      split: prod.splits)

text \<open>
A witness: the source column \<open>Note\<close> is dropped, both metadata columns are added.
\<close>

theorem structured_columns_policy_witness:
  "set (columns (fst (structured_frame quiet_env 0 prices_frame
          [''id'', ''price'', ''loaded_at'', ''source_file''] (PStr ''prices.csv''))))
     = {''id'', ''price'', ''loaded_at'', ''source_file''}"
proof -
  have n: "map camel_to_snake (columns prices_frame) = [''id'', ''price'', ''note'']"
    by code_simp
  have "camel_to_snake ` set (columns prices_frame) = set (map camel_to_snake (columns prices_frame))"
    by simp
  then have "camel_to_snake ` set (columns prices_frame) = {''id'', ''price'', ''note''}"
    by (simp only: n) simp
  with structured_columns_policy [of quiet_env 0 prices_frame
      "[''id'', ''price'', ''loaded_at'', ''source_file'']" "PStr ''prices.csv''"]
  show ?thesis by auto
qed

text \<open>
The statement as first written fails: the destination declares \<open>source_file\<close>, no source
  identifier is given, and the column is not added.
\<close>

theorem source_file_needs_argument:
  "''source_file'' \<in> set [''id'', ''source_file'']
   \<and> columns (fst (structured_frame quiet_env 0 \<lparr>columns = [''Id''], rows = [[PInt 1]]\<rparr>
                     [''id'', ''source_file''] PNone)) = [''id'']"
  by code_simp

section \<open>The object-storage fetcher\<close>

lemma get_public_url_nonempty: "get_public_url cfg k \<noteq> []"
  by (simp add: get_public_url_def)

lemma not_both_suffixes: "\<not> (endswith x ''.json'' \<and> endswith x ''.csv'')"
proof
  assume a: "endswith x ''.json'' \<and> endswith x ''.csv''"
  then have l: "5 \<le> length x" and j: "drop (length x - 5) x = ''.json''"
    and c: "drop (length x - 4) x = ''.csv''"
    by (simp_all add: endswith_def eval_nat_numeral)
  from l have "length x - 4 = Suc (length x - 5)" by arith
  then have "drop (length x - 4) x = drop 1 (drop (length x - 5) x)"
    by simp
  with j c show False by simp
qed

lemma extract_file_unsupported_only:
  "UnsupportedFormat k' \<in> set (fst (snd (extract_file e cfg s k t))) \<Longrightarrow>
   k' = k \<and> \<not> endswith (py_lower k) ''.json'' \<and> \<not> endswith (py_lower k) ''.csv''"
  by (auto simp: extract_file_def Let_def split: option.splits if_splits prod.splits)

text \<open>
  C10. The format of a file is decided on the lower-cased key. When the download has
  succeeded: a key whose lower-cased form ends with \<open>.json\<close> is processed as JSON (the parsed
  body goes to \<open>extract_from_object\<close>), one that ends with \<open>.csv\<close> as a table (the parsed
  frame goes to \<open>extract_from_dataframe\<close>), and any other key is rejected: the result is
  false, the state is unchanged and the unsupported format is logged. In every case, the
  unsupported format is logged only for a key that ends with neither.
\<close>

theorem extract_file_classification:
  "(\<forall>r. http_get e (get_public_url cfg k) = Some r \<and> \<not> bad_status r \<longrightarrow>
      (endswith (py_lower k) ''.json'' \<longrightarrow>
         extract_file e cfg s k t =
           (case json_body r of
              None \<Rightarrow> (False, [], s)
            | Some json_data \<Rightarrow>
                (case extract_from_object e s json_data t (PStr k) of
                   (success, s1) \<Rightarrow> (success, [], s1))))
    \<and> (endswith (py_lower k) ''.csv'' \<longrightarrow>
         extract_file e cfg s k t =
           (case csv_body r of
              None \<Rightarrow> (False, [], s)
            | Some df \<Rightarrow>
                (case extract_from_dataframe e s df t (PStr k) of
                   (success, s1) \<Rightarrow> (success, [], s1))))
    \<and> (\<not> endswith (py_lower k) ''.json'' \<and> \<not> endswith (py_lower k) ''.csv'' \<longrightarrow>
         extract_file e cfg s k t = (False, [UnsupportedFormat k], s)))
   \<and> (\<forall>k'. UnsupportedFormat k' \<in> set (fst (snd (extract_file e cfg s k t))) \<longrightarrow>
         k' = k \<and> \<not> endswith (py_lower k) ''.json'' \<and> \<not> endswith (py_lower k) ''.csv'')"
proof -
  have "endswith (py_lower k) ''.csv'' \<Longrightarrow> \<not> endswith (py_lower k) ''.json''"
    using not_both_suffixes by blast
  then show ?thesis
    using extract_file_unsupported_only [of _ e cfg s k t]
    by (auto simp: extract_file_def Let_def get_public_url_nonempty)
qed

text \<open>
A witness: the keys \<open>notes.txt\<close>, \<open>DATA.CSV\<close> and \<open>data.Json\<close>.
\<close>

theorem extract_file_classification_witness:
  "extract_file web_env bucket fresh_db ''notes.txt'' ''prices''
      = (False, [UnsupportedFormat ''notes.txt''], fresh_db)
   \<and> extract_file web_env bucket fresh_db ''DATA.CSV'' ''prices''
      = (case csv_body page of
           None \<Rightarrow> (False, [], fresh_db)
         | Some df \<Rightarrow>
             (case extract_from_dataframe web_env fresh_db df ''prices'' (PStr ''DATA.CSV'') of
                (success, s1) \<Rightarrow> (success, [], s1)))
   \<and> extract_file web_env bucket fresh_db ''data.Json'' ''prices''
      = (case json_body page of
           None \<Rightarrow> (False, [], fresh_db)
         | Some json_data \<Rightarrow>
             (case extract_from_object web_env fresh_db json_data ''prices'' (PStr ''data.Json'') of
                (success, s1) \<Rightarrow> (success, [], s1)))"
proof -
  have f: "\<And>k. http_get web_env (get_public_url bucket k) = Some page"
    by (simp add: web_env_def)
  have g: "\<not> bad_status page" by code_simp
  have 1: "\<not> endswith (py_lower ''notes.txt'') ''.json'' \<and> \<not> endswith (py_lower ''notes.txt'') ''.csv''"
    by code_simp
  have 2: "endswith (py_lower ''DATA.CSV'') ''.csv''" by code_simp
  have 3: "endswith (py_lower ''data.Json'') ''.json''" by code_simp
  from f g 1 extract_file_classification[of web_env bucket "''notes.txt''" fresh_db "''prices''"]
  have a: "extract_file web_env bucket fresh_db ''notes.txt'' ''prices''
      = (False, [UnsupportedFormat ''notes.txt''], fresh_db)" by blast
  from f g 2 extract_file_classification[of web_env bucket "''DATA.CSV''" fresh_db "''prices''"]
  have b: "extract_file web_env bucket fresh_db ''DATA.CSV'' ''prices''
      = (case csv_body page of
           None \<Rightarrow> (False, [], fresh_db)
         | Some df \<Rightarrow>
             (case extract_from_dataframe web_env fresh_db df ''prices'' (PStr ''DATA.CSV'') of
                (success, s1) \<Rightarrow> (success, [], s1)))" by blast
  from f g 3 extract_file_classification[of web_env bucket "''data.Json''" fresh_db "''prices''"]
  have c: "extract_file web_env bucket fresh_db ''data.Json'' ''prices''
      = (case json_body page of
           None \<Rightarrow> (False, [], fresh_db)
         | Some json_data \<Rightarrow>
             (case extract_from_object web_env fresh_db json_data ''prices'' (PStr ''data.Json'') of
                (success, s1) \<Rightarrow> (success, [], s1)))" by blast
  from a b c show ?thesis by blast
qed

section \<open>The orchestrator\<close>















end
